theory Spec2Isabelle
  imports Main "HOL-Library.Word"
begin

unbundle bit_operations_syntax

section \<open>Byte strings, exceptions and the struct module\<close>

text \<open>
  A Python \<^verbatim>\<open>bytes\<close> object is a list of 8-bit words. The fields that
  \<^verbatim>\<open>struct.unpack\<close> returns are Python integers, which are unbounded, so they are
  modelled as \<^typ>\<open>int\<close>; the range check happens where Python makes it, in
  \<^verbatim>\<open>struct.pack\<close>. The three exceptions that the packet path of \<^verbatim>\<open>proxy.py\<close> can raise
  are \<^verbatim>\<open>struct.error\<close> (a buffer of the wrong size for a format, or an integer out of the
  range of its format character), \<^verbatim>\<open>IndexError\<close> (\<^verbatim>\<open>packet[0]\<close> on an empty buffer) and
  \<^verbatim>\<open>KeyError\<close> (a dictionary read of an absent key).
\<close>

type_synonym byte = "8 word"
type_synonym bytes = "byte list"

datatype error = StructError | IndexError | KeyError

text \<open>Python's \<^verbatim>\<open>xs[i:j]\<close> for non-negative \<^verbatim>\<open>i\<close> and \<^verbatim>\<open>j\<close>: never raises, clips at the end.\<close>

definition slice :: "nat \<Rightarrow> nat \<Rightarrow> 'a list \<Rightarrow> 'a list" where
  "slice i j xs = take (j - i) (drop i xs)"

text \<open>Big-endian integers, as the format prefix \<^verbatim>\<open>!\<close> reads and writes them.\<close>

definition from_bytes_big :: "bytes \<Rightarrow> int" where
  "from_bytes_big bs = foldl (\<lambda>a b. a * 256 + uint b) 0 bs"

fun to_bytes_big :: "nat \<Rightarrow> int \<Rightarrow> bytes" where
  "to_bytes_big 0 v = []"
| "to_bytes_big (Suc n) v = to_bytes_big n (v div 256) @ [word_of_int v]"

text \<open>
  \<^verbatim>\<open>struct.pack\<close> raises \<^verbatim>\<open>struct.error\<close> unless an integer fits its format character
  (\<^verbatim>\<open>B\<close>: 1 byte, \<^verbatim>\<open>H\<close>: 2 bytes, \<^verbatim>\<open>L\<close>: 4 bytes, all unsigned). A \<^verbatim>\<open>bytes\<close> argument of an
  \<^verbatim>\<open>s\<close> field is truncated or padded with zero bytes to the field's width.
\<close>

definition uint_ok :: "nat \<Rightarrow> int \<Rightarrow> bool" where
  "uint_ok n v \<longleftrightarrow> 0 \<le> v \<and> v < 256 ^ n"

definition pack_s :: "nat \<Rightarrow> bytes \<Rightarrow> bytes" where
  "pack_s n bs = take n bs @ replicate (n - length bs) 0"

definition unpack_uint :: "nat \<Rightarrow> nat \<Rightarrow> bytes \<Rightarrow> int" where
  "unpack_uint i j buf = from_bytes_big (slice i j buf)"

definition unpack_s :: "nat \<Rightarrow> nat \<Rightarrow> bytes \<Rightarrow> bytes" where
  "unpack_s i j buf = slice i j buf"

text \<open>Sequencing of computations that may raise: the first exception wins.\<close>

definition then_do :: "error + 'a \<Rightarrow> ('a \<Rightarrow> error + 'b) \<Rightarrow> error + 'b" where
  "then_do m f = (case m of Inl e \<Rightarrow> Inl e | Inr x \<Rightarrow> f x)"

section \<open>Header codecs\<close>

text \<open>
  Each class built by the metaclass \<^verbatim>\<open>MetaStruct\<close> is a named tuple whose constructor
  unpacks a buffer with the class's \<^verbatim>\<open>struct_fmt\<close> (raising \<^verbatim>\<open>struct.error\<close> unless the
  buffer has exactly the format's size) and whose \<^verbatim>\<open>pack\<close> method packs the fields with
  the same format. The constructor keeps the class's name; the record is the named tuple.
\<close>

record EthHeader =
  eth_dst :: bytes
  eth_src :: bytes
  eth_type :: int

definition StructEthHeader :: "bytes \<Rightarrow> error + EthHeader" where
  "StructEthHeader buf =
     (if length buf \<noteq> 14 then Inl StructError
      else Inr \<lparr>eth_dst = unpack_s 0 6 buf, eth_src = unpack_s 6 12 buf,
                eth_type = unpack_uint 12 14 buf\<rparr>)"

definition pack_EthHeader :: "EthHeader \<Rightarrow> error + bytes" where
  "pack_EthHeader nt =
     (if uint_ok 2 (eth_type nt)
      then Inr (pack_s 6 (eth_dst nt) @ pack_s 6 (eth_src nt) @ to_bytes_big 2 (eth_type nt))
      else Inl StructError)"

record NshHeader =
  nsh_flags_length :: int
  nsh_md_type :: int
  nsh_np :: int
  nsh_sph :: int
  nsh_ctx1 :: int
  nsh_ctx2 :: int
  nsh_ctx3 :: int
  nsh_ctx4 :: int

definition StructNshHeader :: "bytes \<Rightarrow> error + NshHeader" where
  "StructNshHeader buf =
     (if length buf \<noteq> 24 then Inl StructError
      else Inr \<lparr>nsh_flags_length = unpack_uint 0 2 buf, nsh_md_type = unpack_uint 2 3 buf,
                nsh_np = unpack_uint 3 4 buf, nsh_sph = unpack_uint 4 8 buf,
                nsh_ctx1 = unpack_uint 8 12 buf, nsh_ctx2 = unpack_uint 12 16 buf,
                nsh_ctx3 = unpack_uint 16 20 buf, nsh_ctx4 = unpack_uint 20 24 buf\<rparr>)"

definition pack_NshHeader :: "NshHeader \<Rightarrow> error + bytes" where
  "pack_NshHeader nt =
     (if uint_ok 2 (nsh_flags_length nt) \<and> uint_ok 1 (nsh_md_type nt) \<and> uint_ok 1 (nsh_np nt)
         \<and> uint_ok 4 (nsh_sph nt) \<and> uint_ok 4 (nsh_ctx1 nt) \<and> uint_ok 4 (nsh_ctx2 nt)
         \<and> uint_ok 4 (nsh_ctx3 nt) \<and> uint_ok 4 (nsh_ctx4 nt)
      then Inr (to_bytes_big 2 (nsh_flags_length nt) @ to_bytes_big 1 (nsh_md_type nt)
                @ to_bytes_big 1 (nsh_np nt) @ to_bytes_big 4 (nsh_sph nt)
                @ to_bytes_big 4 (nsh_ctx1 nt) @ to_bytes_big 4 (nsh_ctx2 nt)
                @ to_bytes_big 4 (nsh_ctx3 nt) @ to_bytes_big 4 (nsh_ctx4 nt))
      else Inl StructError)"

definition get_nsh_spi :: "NshHeader \<Rightarrow> int" where
  "get_nsh_spi nt = drop_bit 8 (nsh_sph nt AND 0xFFFFFF00)"

definition get_nsh_si :: "NshHeader \<Rightarrow> int" where
  "get_nsh_si nt = nsh_sph nt AND 0x000000FF"

definition make_nsh_sph_with_si :: "NshHeader \<Rightarrow> int \<Rightarrow> int" where
  "make_nsh_sph_with_si nt new_nsh_si = push_bit 8 (get_nsh_spi nt) + new_nsh_si"

record UdpHeader =
  udp_src_port :: int
  udp_dst_port :: int
  udp_data_length :: int
  udp_checksum :: int

definition StructUdpHeader :: "bytes \<Rightarrow> error + UdpHeader" where
  "StructUdpHeader buf =
     (if length buf \<noteq> 8 then Inl StructError
      else Inr \<lparr>udp_src_port = unpack_uint 0 2 buf, udp_dst_port = unpack_uint 2 4 buf,
                udp_data_length = unpack_uint 4 6 buf, udp_checksum = unpack_uint 6 8 buf\<rparr>)"

definition pack_UdpHeader :: "UdpHeader \<Rightarrow> error + bytes" where
  "pack_UdpHeader nt =
     (if uint_ok 2 (udp_src_port nt) \<and> uint_ok 2 (udp_dst_port nt)
         \<and> uint_ok 2 (udp_data_length nt) \<and> uint_ok 2 (udp_checksum nt)
      then Inr (to_bytes_big 2 (udp_src_port nt) @ to_bytes_big 2 (udp_dst_port nt)
                @ to_bytes_big 2 (udp_data_length nt) @ to_bytes_big 2 (udp_checksum nt))
      else Inl StructError)"

record IpHeader =
  ip_ver_ihl_type :: int
  ip_total_length :: int
  ip_id :: int
  ip_flags_frag_offset :: int
  ip_time2live :: int
  ip_protocol :: int
  ip_hdr_checksum :: int
  ip_src :: bytes
  ip_dst :: bytes

definition StructIpHeader :: "bytes \<Rightarrow> error + IpHeader" where
  "StructIpHeader buf =
     (if length buf \<noteq> 20 then Inl StructError
      else Inr \<lparr>ip_ver_ihl_type = unpack_uint 0 2 buf, ip_total_length = unpack_uint 2 4 buf,
                ip_id = unpack_uint 4 6 buf, ip_flags_frag_offset = unpack_uint 6 8 buf,
                ip_time2live = unpack_uint 8 9 buf, ip_protocol = unpack_uint 9 10 buf,
                ip_hdr_checksum = unpack_uint 10 12 buf,
                ip_src = unpack_s 12 16 buf, ip_dst = unpack_s 16 20 buf\<rparr>)"

definition pack_IpHeader :: "IpHeader \<Rightarrow> error + bytes" where
  "pack_IpHeader nt =
     (if uint_ok 2 (ip_ver_ihl_type nt) \<and> uint_ok 2 (ip_total_length nt) \<and> uint_ok 2 (ip_id nt)
         \<and> uint_ok 2 (ip_flags_frag_offset nt) \<and> uint_ok 1 (ip_time2live nt)
         \<and> uint_ok 1 (ip_protocol nt) \<and> uint_ok 2 (ip_hdr_checksum nt)
      then Inr (to_bytes_big 2 (ip_ver_ihl_type nt) @ to_bytes_big 2 (ip_total_length nt)
                @ to_bytes_big 2 (ip_id nt) @ to_bytes_big 2 (ip_flags_frag_offset nt)
                @ to_bytes_big 1 (ip_time2live nt) @ to_bytes_big 1 (ip_protocol nt)
                @ to_bytes_big 2 (ip_hdr_checksum nt)
                @ pack_s 4 (ip_src nt) @ pack_s 4 (ip_dst nt))
      else Inl StructError)"

record TcpHeaderWithoutOptions =
  tcp_src_port :: int
  tcp_dst_port :: int
  tcp_seq_number :: int
  tcp_ack :: int
  tcp_byte_data_offset :: int
  tcp_flags :: int
  tcp_win_size :: int
  tcp_checksum :: int
  tcp_urgent_ptr :: int

definition StructTcpHeaderWithoutOptions :: "bytes \<Rightarrow> error + TcpHeaderWithoutOptions" where
  "StructTcpHeaderWithoutOptions buf =
     (if length buf \<noteq> 20 then Inl StructError
      else Inr \<lparr>tcp_src_port = unpack_uint 0 2 buf, tcp_dst_port = unpack_uint 2 4 buf,
                tcp_seq_number = unpack_uint 4 8 buf, tcp_ack = unpack_uint 8 12 buf,
                tcp_byte_data_offset = unpack_uint 12 13 buf, tcp_flags = unpack_uint 13 14 buf,
                tcp_win_size = unpack_uint 14 16 buf, tcp_checksum = unpack_uint 16 18 buf,
                tcp_urgent_ptr = unpack_uint 18 20 buf\<rparr>)"

definition pack_TcpHeaderWithoutOptions :: "TcpHeaderWithoutOptions \<Rightarrow> error + bytes" where
  "pack_TcpHeaderWithoutOptions nt =
     (if uint_ok 2 (tcp_src_port nt) \<and> uint_ok 2 (tcp_dst_port nt)
         \<and> uint_ok 4 (tcp_seq_number nt) \<and> uint_ok 4 (tcp_ack nt)
         \<and> uint_ok 1 (tcp_byte_data_offset nt) \<and> uint_ok 1 (tcp_flags nt)
         \<and> uint_ok 2 (tcp_win_size nt) \<and> uint_ok 2 (tcp_checksum nt)
         \<and> uint_ok 2 (tcp_urgent_ptr nt)
      then Inr (to_bytes_big 2 (tcp_src_port nt) @ to_bytes_big 2 (tcp_dst_port nt)
                @ to_bytes_big 4 (tcp_seq_number nt) @ to_bytes_big 4 (tcp_ack nt)
                @ to_bytes_big 1 (tcp_byte_data_offset nt) @ to_bytes_big 1 (tcp_flags nt)
                @ to_bytes_big 2 (tcp_win_size nt) @ to_bytes_big 2 (tcp_checksum nt)
                @ to_bytes_big 2 (tcp_urgent_ptr nt))
      else Inl StructError)"

record PseudoHeader =
  src :: bytes
  dst :: bytes
  zero :: int
  protocol :: int
  tcp_length :: int

definition StructPseudoHeader :: "bytes \<Rightarrow> error + PseudoHeader" where
  "StructPseudoHeader buf =
     (if length buf \<noteq> 12 then Inl StructError
      else Inr \<lparr>src = unpack_s 0 4 buf, dst = unpack_s 4 8 buf, zero = unpack_uint 8 9 buf,
                protocol = unpack_uint 9 10 buf, tcp_length = unpack_uint 10 12 buf\<rparr>)"

definition pack_PseudoHeader :: "PseudoHeader \<Rightarrow> error + bytes" where
  "pack_PseudoHeader nt =
     (if uint_ok 1 (zero nt) \<and> uint_ok 1 (protocol nt) \<and> uint_ok 2 (tcp_length nt)
      then Inr (pack_s 4 (src nt) @ pack_s 4 (dst nt) @ to_bytes_big 1 (zero nt)
                @ to_bytes_big 1 (protocol nt) @ to_bytes_big 2 (tcp_length nt))
      else Inl StructError)"

record VxLanGPEHeader =
  vxlan_flags :: int
  vxlan_reserved1 :: int
  next_proto :: int
  vni :: bytes
  vxlan_reserved2 :: int

definition StructVxLanGPEHeader :: "bytes \<Rightarrow> error + VxLanGPEHeader" where
  "StructVxLanGPEHeader buf =
     (if length buf \<noteq> 8 then Inl StructError
      else Inr \<lparr>vxlan_flags = unpack_uint 0 1 buf, vxlan_reserved1 = unpack_uint 1 3 buf,
                next_proto = unpack_uint 3 4 buf, vni = unpack_s 4 7 buf,
                vxlan_reserved2 = unpack_uint 7 8 buf\<rparr>)"

definition pack_VxLanGPEHeader :: "VxLanGPEHeader \<Rightarrow> error + bytes" where
  "pack_VxLanGPEHeader nt =
     (if uint_ok 1 (vxlan_flags nt) \<and> uint_ok 2 (vxlan_reserved1 nt) \<and> uint_ok 1 (next_proto nt)
         \<and> uint_ok 1 (vxlan_reserved2 nt)
      then Inr (to_bytes_big 1 (vxlan_flags nt) @ to_bytes_big 2 (vxlan_reserved1 nt)
                @ to_bytes_big 1 (next_proto nt) @ pack_s 3 (vni nt)
                @ to_bytes_big 1 (vxlan_reserved2 nt))
      else Inl StructError)"

section \<open>Header rewriting helpers and the Internet checksum\<close>

text \<open>The parse functions split a buffer by slicing (lines 195-207, 252-257, 305-309, 328-332,
  357-366, 508-512). Only \<^verbatim>\<open>parse_ip\<close> (the read of \<^verbatim>\<open>packet[0]\<close>) and \<^verbatim>\<open>parse_tcp\<close> (the
  constructor call) can raise.\<close>

definition parse_ethernet :: "bytes \<Rightarrow> bytes \<times> bytes" where
  "parse_ethernet frame = (slice 0 14 frame, drop 14 frame)"

definition parse_nsh :: "bytes \<Rightarrow> bytes \<times> bytes" where
  "parse_nsh packet = (slice 0 (8 + 16) packet, drop (8 + 16) packet)"

definition parse_udp :: "bytes \<Rightarrow> bytes \<times> bytes" where
  "parse_udp packet = (slice 0 8 packet, drop 8 packet)"

definition parse_vxlan_gpe :: "bytes \<Rightarrow> bytes \<times> bytes" where
  "parse_vxlan_gpe packet = (slice 0 8 packet, drop 8 packet)"

definition parse_ip :: "bytes \<Rightarrow> error + bytes \<times> bytes" where
  "parse_ip packet =
     (case packet of
        [] \<Rightarrow> Inl IndexError
      | b # _ \<Rightarrow>
          (let header_length_in_bytes = nat ((uint b AND 0x0F) * 4)
           in Inr (slice 0 header_length_in_bytes packet, drop header_length_in_bytes packet)))"

definition parse_tcp :: "bytes \<Rightarrow> error + bytes \<times> bytes \<times> bytes" where
  "parse_tcp packet =
     (let header_without_options = slice 0 20 packet
      in then_do (StructTcpHeaderWithoutOptions header_without_options) (\<lambda>nt.
           let data_offset = drop_bit 4 (tcp_byte_data_offset nt);
               header_length = nat (data_offset * 4)
           in Inr (header_without_options, slice 20 header_length packet,
                   drop header_length packet)))"

definition make_ethernet_header_swap :: "bytes \<Rightarrow> error + bytes" where
  "make_ethernet_header_swap header =
     then_do (StructEthHeader header) (\<lambda>outer_eth_header_nt.
       pack_EthHeader (outer_eth_header_nt\<lparr>eth_dst := eth_src outer_eth_header_nt,
                                             eth_src := eth_dst outer_eth_header_nt\<rparr>))"

definition make_nsh_decr_si :: "bytes \<Rightarrow> error + bytes" where
  "make_nsh_decr_si nsh_header =
     then_do (StructNshHeader nsh_header) (\<lambda>nt.
       pack_NshHeader (nt\<lparr>nsh_sph := make_nsh_sph_with_si nt (get_nsh_si nt - 1)\<rparr>))"

text \<open>
  \<^verbatim>\<open>calculate_checksum\<close> (lines 447-458). \<^verbatim>\<open>array.array("H", pkt)\<close> reads the buffer as
  16-bit words in the byte order of the host; the model is of a little-endian host (x86,
  ARM), the only kind on which the byte swap of the last line gives the sum in network
  order. The test \<^verbatim>\<open>struct.pack("H",1) == "\x00\x01"\<close> compares a \<^verbatim>\<open>bytes\<close> with a
  \<^verbatim>\<open>str\<close> and is false on every host under Python 3, so the function always returns
  through its \<^verbatim>\<open>else\<close> branch. The bitwise operations are Python's, on unbounded
  two's-complement integers, as \<^typ>\<open>int\<close> has them. \<open>array_H\<close> is only applied to a
  buffer of even length (the function pads an odd one first), where
  \<^verbatim>\<open>array.array\<close> does not raise.
\<close>

fun array_H :: "bytes \<Rightarrow> int list" where
  "array_H (a # b # r) = (uint a + 256 * uint b) # array_H r"
| "array_H r = []"

definition calculate_checksum :: "bytes \<Rightarrow> int" where
  "calculate_checksum pkt0 =
     (let pkt = (if length pkt0 mod 2 = 1 then pkt0 @ [0] else pkt0);
          s = sum_list (array_H pkt);
          s = drop_bit 16 s + (s AND 0xffff);
          s = s + drop_bit 16 s;
          s = NOT s
      in ((drop_bit 8 s AND 0xff) OR push_bit 8 s) AND 0xffff)"

definition calculate_ip_checksum :: "bytes \<Rightarrow> int" where
  "calculate_ip_checksum pkt =
     calculate_checksum (slice 0 10 pkt @ [0] @ [0] @ slice 12 (length pkt) pkt)"

definition make_ip_header :: "bytes \<Rightarrow> int \<Rightarrow> error + bytes" where
  "make_ip_header header new_ip_total_length =
     then_do (StructIpHeader header) (\<lambda>nt.
       let nt = nt\<lparr>ip_total_length := new_ip_total_length\<rparr>
       in then_do (pack_IpHeader nt) (\<lambda>packed.
            pack_IpHeader (nt\<lparr>ip_hdr_checksum := calculate_ip_checksum packed\<rparr>)))"

definition make_ip_header_swap :: "bytes \<Rightarrow> error + bytes" where
  "make_ip_header_swap header =
     then_do (StructIpHeader header) (\<lambda>ip_header_nt.
       pack_IpHeader (ip_header_nt\<lparr>ip_src := ip_dst ip_header_nt,
                                    ip_dst := ip_src ip_header_nt\<rparr>))"

section \<open>Session tables, sockets and the three pipelines\<close>

text \<open>
  The module's global state: the two dictionaries \<^verbatim>\<open>sessions\<close> (the forward table) and
  \<^verbatim>\<open>sessions_reply_info\<close> (the reply table), keyed by the inner 7-tuple and holding the
  six header slices, and the three raw sockets. A socket belongs to the environment: its
  \<^verbatim>\<open>send\<close> is a parameter \<open>send\<close> of the model, which, given the socket, the buffer and
  the environment's state, answers how many bytes it took and the environment's next state.
  \<open>sent_log\<close> records, in order, the socket and the bytes taken by every \<^verbatim>\<open>send\<close>: what
  has been emitted. A \<^verbatim>\<open>send\<close> that fails with an error of the operating system is not
  modelled. Printing (\<^verbatim>\<open>pf\<close>) has no effect on the tables or the sockets and is left
  out. Each call of a pipeline is modelled on its own, from the world it starts in: the
  interleaving of the three threads is not modelled.
\<close>

type_synonym key = "bytes \<times> bytes \<times> int \<times> bytes \<times> bytes \<times> int \<times> int"
type_synonym header_bundle = "bytes \<times> bytes \<times> bytes \<times> bytes \<times> bytes \<times> bytes"

datatype sckt = sckt_encap | sckt_unencap_in | sckt_unencap_out

record 'n world =
  sessions :: "key \<rightharpoonup> header_bundle"
  sessions_reply_info :: "key \<rightharpoonup> header_bundle"
  net :: 'n
  sent_log :: "(sckt \<times> bytes) list"

text \<open>A call either returns or raises; both leave the world as the call made it.\<close>

datatype 'n outcome = Returned "'n world" | Raised error "'n world"

primrec world_of :: "'n outcome \<Rightarrow> 'n world" where
  "world_of (Returned w) = w"
| "world_of (Raised e w) = w"

text \<open>
  The write-until-drained loop (lines 760-766, 883-885, 1023-1025):
  \<^verbatim>\<open>while new_pkt: sent = sckt.send(new_pkt); new_pkt = new_pkt[sent:]\<close>.
  Nothing bounds the number of rounds, so the loop is a partial function: \<open>None\<close> is a
  loop that never ends. In the de-encapsulation pipeline the socket is chosen inside the
  loop by \<^verbatim>\<open>isReply\<close>, which the loop does not change.
\<close>

partial_function (option) send_all ::
  "(sckt \<Rightarrow> bytes \<Rightarrow> 'n \<Rightarrow> nat \<times> 'n) \<Rightarrow> sckt \<Rightarrow> bytes \<Rightarrow> 'n world \<Rightarrow> 'n world option" where
  "send_all send s new_pkt w =
     (if new_pkt = [] then Some w
      else send_all send s (drop (fst (send s new_pkt (net w))) new_pkt)
             (w\<lparr>net := snd (send s new_pkt (net w)),
                sent_log := sent_log w @ [(s, take (fst (send s new_pkt (net w))) new_pkt)]\<rparr>))"

text \<open>
  The descent of \<^verbatim>\<open>parse_frame_and_deencapsulate\<close> through the header stack (lines
  632-670). \<open>Inr None\<close> is a frame that one of the three tests (ethertype, protocol,
  port) turns away; \<open>Inl\<close> is an exception raised by a constructor or by \<^verbatim>\<open>parse_ip\<close>.
\<close>

record stack =
  outer_eth_header :: bytes
  ip_header :: bytes
  udp_header :: bytes
  vxlan_header :: bytes
  eth_nsh_header :: bytes
  nsh_header :: bytes
  nsh_payload :: bytes
  inner_eth_header_nt :: EthHeader
  inner_ip_header_nt :: IpHeader
  inner_tcp_header_nt :: TcpHeaderWithoutOptions

definition parse_stack :: "bytes \<Rightarrow> error + stack option" where
  "parse_stack frame =
     (let (outer_eth_header, outer_eth_payload) = parse_ethernet frame in
      then_do (StructEthHeader outer_eth_header) (\<lambda>outer_eth_header_nt.
      if eth_type outer_eth_header_nt = 0x0800 then
        then_do (parse_ip outer_eth_payload) (\<lambda>(ip_header, ip_payload).
        then_do (StructIpHeader ip_header) (\<lambda>ip_header_nt.
        if ip_protocol ip_header_nt = 17 then
          (let (udp_header, udp_payload) = parse_udp ip_payload in
           then_do (StructUdpHeader udp_header) (\<lambda>udp_header_nt.
           if udp_dst_port udp_header_nt = 4790 then
             (let (vxlan_header, vxlan_payload) = parse_vxlan_gpe udp_payload in
              then_do (StructVxLanGPEHeader vxlan_header) (\<lambda>vxlan_header_nt.
              let (eth_nsh_header, eth_nsh_payload) = parse_ethernet vxlan_payload in
              then_do (StructEthHeader eth_nsh_header) (\<lambda>eth_nsh_header_nt.
              let (nsh_header, nsh_payload) = parse_nsh eth_nsh_payload in
              then_do (StructNshHeader nsh_header) (\<lambda>nsh_header_nt.
              let (inner_eth_header, inner_eth_payload) = parse_ethernet nsh_payload in
              then_do (StructEthHeader inner_eth_header) (\<lambda>inner_eth_header_nt.
              then_do (parse_ip inner_eth_payload) (\<lambda>(inner_ip_header, inner_ip_payload).
              then_do (StructIpHeader inner_ip_header) (\<lambda>inner_ip_header_nt.
              then_do (parse_tcp inner_ip_payload)
                (\<lambda>(inner_tcp_header_without_options, inner_tcp_options, inner_tcp_payload).
              then_do (StructTcpHeaderWithoutOptions inner_tcp_header_without_options)
                (\<lambda>inner_tcp_header_nt.
              Inr (Some \<lparr>outer_eth_header = outer_eth_header, ip_header = ip_header,
                         udp_header = udp_header, vxlan_header = vxlan_header,
                         eth_nsh_header = eth_nsh_header, nsh_header = nsh_header,
                         nsh_payload = nsh_payload,
                         inner_eth_header_nt = inner_eth_header_nt,
                         inner_ip_header_nt = inner_ip_header_nt,
                         inner_tcp_header_nt = inner_tcp_header_nt\<rparr>))))))))))
           else Inr None))
        else Inr None))
      else Inr None))"

text \<open>
  \<^verbatim>\<open>parse_frame_and_deencapsulate\<close> (lines 610-784): the descent, then the session update
  (lines 696-744) and the emission (lines 752-766). Its callers read nothing of the tuple
  it returns but \<^verbatim>\<open>continue_next\<close>, which is always \<^verbatim>\<open>False\<close>; the model returns the
  world.
\<close>

definition parse_frame_and_deencapsulate ::
  "(sckt \<Rightarrow> bytes \<Rightarrow> 'n \<Rightarrow> nat \<times> 'n) \<Rightarrow> bytes \<Rightarrow> sckt \<Rightarrow> 'n world \<Rightarrow> 'n outcome option" where
  "parse_frame_and_deencapsulate send frame sck w =
     (case parse_stack frame of
        Inl e \<Rightarrow> Some (Raised e w)
      | Inr None \<Rightarrow> Some (Returned w)
      | Inr (Some p) \<Rightarrow>
          (let eth_dst = eth_dst (inner_eth_header_nt p);
               eth_src = eth_src (inner_eth_header_nt p);
               eth_type = eth_type (inner_eth_header_nt p);
               ip_dst = ip_dst (inner_ip_header_nt p);
               ip_src = ip_src (inner_ip_header_nt p);
               tcp_dst_port = tcp_dst_port (inner_tcp_header_nt p);
               tcp_src_port = tcp_src_port (inner_tcp_header_nt p);
               key = (eth_dst, eth_src, eth_type, ip_dst, ip_src, tcp_dst_port, tcp_src_port);
               swapped_key =
                 (eth_src, eth_dst, eth_type, ip_src, ip_dst, tcp_src_port, tcp_dst_port);
               headers = (outer_eth_header p, ip_header p, udp_header p, vxlan_header p,
                          eth_nsh_header p, nsh_header p);
               isReply = (sessions w swapped_key \<noteq> None);
               w = (if isReply
                    then w\<lparr>sessions_reply_info := (sessions_reply_info w)(swapped_key \<mapsto> headers)\<rparr>
                    else w);
               w = (if \<not> isReply then w\<lparr>sessions := (sessions w)(key \<mapsto> headers)\<rparr> else w);
               new_pkt = nsh_payload p
           in map_option Returned
                (send_all send (if \<not> isReply then sck else sckt_unencap_in) new_pkt w)))"

text \<open>
  The descent shared by \<^verbatim>\<open>parse_frame_and_encapsulate\<close> (lines 810-835) and
  \<^verbatim>\<open>parse_frame_and_encapsulate_test\<close> (lines 934-959): Ethernet, IPv4, TCP.
\<close>

definition parse_bare ::
  "bytes \<Rightarrow> error + (EthHeader \<times> IpHeader \<times> TcpHeaderWithoutOptions) option" where
  "parse_bare frame =
     (let (outer_eth_header, outer_eth_payload) = parse_ethernet frame in
      then_do (StructEthHeader outer_eth_header) (\<lambda>outer_eth_header_nt.
      if eth_type outer_eth_header_nt = 0x0800 then
        then_do (parse_ip outer_eth_payload) (\<lambda>(ip_header, ip_payload).
        then_do (StructIpHeader ip_header) (\<lambda>ip_header_nt.
        if ip_protocol ip_header_nt = 6 then
          then_do (parse_tcp ip_payload) (\<lambda>(tcp_header_without_options, tcp_options, tcp_payload).
          then_do (StructTcpHeaderWithoutOptions tcp_header_without_options) (\<lambda>tcp_header_nt.
          Inr (Some (outer_eth_header_nt, ip_header_nt, tcp_header_nt))))
        else Inr None))
      else Inr None))"

definition key_of :: "EthHeader \<times> IpHeader \<times> TcpHeaderWithoutOptions \<Rightarrow> key" where
  "key_of t =
     (case t of (outer_eth_header_nt, ip_header_nt, tcp_header_nt) \<Rightarrow>
        (eth_dst outer_eth_header_nt, eth_src outer_eth_header_nt, eth_type outer_eth_header_nt,
         ip_dst ip_header_nt, ip_src ip_header_nt,
         tcp_dst_port tcp_header_nt, tcp_src_port tcp_header_nt))"

definition swapped_key_of :: "EthHeader \<times> IpHeader \<times> TcpHeaderWithoutOptions \<Rightarrow> key" where
  "swapped_key_of t =
     (case t of (outer_eth_header_nt, ip_header_nt, tcp_header_nt) \<Rightarrow>
        (eth_src outer_eth_header_nt, eth_dst outer_eth_header_nt, eth_type outer_eth_header_nt,
         ip_src ip_header_nt, ip_dst ip_header_nt,
         tcp_src_port tcp_header_nt, tcp_dst_port tcp_header_nt))"

text \<open>\<^verbatim>\<open>parse_frame_and_encapsulate\<close> (lines 786-906).\<close>

definition parse_frame_and_encapsulate ::
  "(sckt \<Rightarrow> bytes \<Rightarrow> 'n \<Rightarrow> nat \<times> 'n) \<Rightarrow> bytes \<Rightarrow> sckt \<Rightarrow> 'n world \<Rightarrow> 'n outcome option" where
  "parse_frame_and_encapsulate send frame sck w =
     (case parse_bare frame of
        Inl e \<Rightarrow> Some (Raised e w)
      | Inr None \<Rightarrow> Some (Returned w)
      | Inr (Some t) \<Rightarrow>
          (case sessions w (key_of t) of
             None \<Rightarrow> Some (Returned w)
           | Some (new_outer_eth_header, new_ip_header, new_udp_header, new_vxlan_header,
                   new_eth_nsh_header, new_nsh_header) \<Rightarrow>
               (case make_ethernet_header_swap new_outer_eth_header of
                  Inl e \<Rightarrow> Some (Raised e w)
                | Inr new_outer_eth_header_swapped \<Rightarrow>
               (case make_ip_header_swap new_ip_header of
                  Inl e \<Rightarrow> Some (Raised e w)
                | Inr new_ip_header_swapped \<Rightarrow>
               (case make_nsh_decr_si new_nsh_header of
                  Inl e \<Rightarrow> Some (Raised e w)
                | Inr new_nsh_header_decremented \<Rightarrow>
                    map_option Returned
                      (send_all send sck
                         (new_outer_eth_header_swapped @ new_ip_header_swapped @ new_udp_header
                          @ new_vxlan_header @ new_eth_nsh_header @ new_nsh_header_decremented
                          @ frame) w))))))"

text \<open>\<^verbatim>\<open>parse_frame_and_encapsulate_test\<close> (lines 910-1046). The read of
  \<^verbatim>\<open>sessions_reply_info[swapped_key]\<close> (line 989) is not guarded by a membership test.\<close>

definition parse_frame_and_encapsulate_test ::
  "(sckt \<Rightarrow> bytes \<Rightarrow> 'n \<Rightarrow> nat \<times> 'n) \<Rightarrow> bytes \<Rightarrow> sckt \<Rightarrow> 'n world \<Rightarrow> 'n outcome option" where
  "parse_frame_and_encapsulate_test send frame sck w =
     (case parse_bare frame of
        Inl e \<Rightarrow> Some (Raised e w)
      | Inr None \<Rightarrow> Some (Returned w)
      | Inr (Some t) \<Rightarrow>
          (case sessions w (swapped_key_of t) of
             None \<Rightarrow> Some (Returned w)
           | Some (new_outer_eth_header, new_ip_header, new_udp_header, new_vxlan_header,
                   new_eth_nsh_header, fwd_nsh_header) \<Rightarrow>
               (case sessions_reply_info w (swapped_key_of t) of
                  None \<Rightarrow> Some (Raised KeyError w)
                | Some (reply_outer_eth_header, reply_ip_header, reply_udp_header,
                        reply_vxlan_header, reply_eth_nsh_header, new_nsh_header) \<Rightarrow>
               (case make_nsh_decr_si new_nsh_header of
                  Inl e \<Rightarrow> Some (Raised e w)
                | Inr new_nsh_header_decremented \<Rightarrow>
               (case make_ethernet_header_swap reply_outer_eth_header of
                  Inl e \<Rightarrow> Some (Raised e w)
                | Inr new_reply_outer_eth_header_swapped \<Rightarrow>
               (case make_ip_header_swap reply_ip_header of
                  Inl e \<Rightarrow> Some (Raised e w)
                | Inr new_reply_ip_header_swapped \<Rightarrow>
               (case make_ethernet_header_swap reply_eth_nsh_header of
                  Inl e \<Rightarrow> Some (Raised e w)
                | Inr new_reply_eth_nsh_header_swapped \<Rightarrow>
                    map_option Returned
                      (send_all send sck
                         (new_reply_outer_eth_header_swapped @ new_reply_ip_header_swapped
                          @ reply_udp_header @ reply_vxlan_header
                          @ new_reply_eth_nsh_header_swapped @ new_nsh_header_decremented
                          @ frame) w))))))))"

text \<open>
  The three workers (lines 1056-1193) are \<^verbatim>\<open>while True\<close> loops around a blocking
  \<^verbatim>\<open>recvfrom\<close>, with no \<^verbatim>\<open>try\<close>: an exception raised by the pipeline leaves the loop
  and ends the thread. A worker is run here on the frames that its socket delivers, in
  order; \<open>Returned\<close> after the last of them is the worker blocked in \<^verbatim>\<open>recvfrom\<close>.
\<close>

fun worker ::
  "(bytes \<Rightarrow> 'n world \<Rightarrow> 'n outcome option) \<Rightarrow> bytes list \<Rightarrow> 'n world \<Rightarrow> 'n outcome option" where
  "worker step [] w = Some (Returned w)"
| "worker step (frame # frames) w =
     (case step frame w of
        None \<Rightarrow> None
      | Some (Raised e w') \<Rightarrow> Some (Raised e w')
      | Some (Returned w') \<Rightarrow> worker step frames w')"

definition unencapsulating_loop ::
  "(sckt \<Rightarrow> bytes \<Rightarrow> 'n \<Rightarrow> nat \<times> 'n) \<Rightarrow> bytes list \<Rightarrow> 'n world \<Rightarrow> 'n outcome option" where
  "unencapsulating_loop send =
     worker (\<lambda>frame. parse_frame_and_deencapsulate send frame sckt_unencap_out)"

definition encapsulating_loop ::
  "(sckt \<Rightarrow> bytes \<Rightarrow> 'n \<Rightarrow> nat \<times> 'n) \<Rightarrow> bytes list \<Rightarrow> 'n world \<Rightarrow> 'n outcome option" where
  "encapsulating_loop send =
     worker (\<lambda>frame. parse_frame_and_encapsulate send frame sckt_encap)"

definition test_loop ::
  "(sckt \<Rightarrow> bytes \<Rightarrow> 'n \<Rightarrow> nat \<times> 'n) \<Rightarrow> bytes list \<Rightarrow> 'n world \<Rightarrow> 'n outcome option" where
  "test_loop send =
     worker (\<lambda>frame. parse_frame_and_encapsulate_test send frame sckt_encap)"

section \<open>Well-formed header records\<close>

text \<open>
  A header record is well formed when each address field has the byte width that its
  format gives it and each integer field lies in the range of its format character.
\<close>

definition wf_EthHeader :: "EthHeader \<Rightarrow> bool" where
  "wf_EthHeader x \<longleftrightarrow>
     length (eth_dst x) = 6 \<and> length (eth_src x) = 6 \<and> uint_ok 2 (eth_type x)"

definition wf_IpHeader :: "IpHeader \<Rightarrow> bool" where
  "wf_IpHeader x \<longleftrightarrow>
     uint_ok 2 (ip_ver_ihl_type x) \<and> uint_ok 2 (ip_total_length x) \<and> uint_ok 2 (ip_id x)
     \<and> uint_ok 2 (ip_flags_frag_offset x) \<and> uint_ok 1 (ip_time2live x)
     \<and> uint_ok 1 (ip_protocol x) \<and> uint_ok 2 (ip_hdr_checksum x)
     \<and> length (ip_src x) = 4 \<and> length (ip_dst x) = 4"

definition wf_UdpHeader :: "UdpHeader \<Rightarrow> bool" where
  "wf_UdpHeader x \<longleftrightarrow>
     uint_ok 2 (udp_src_port x) \<and> uint_ok 2 (udp_dst_port x)
     \<and> uint_ok 2 (udp_data_length x) \<and> uint_ok 2 (udp_checksum x)"

definition wf_VxLanGPEHeader :: "VxLanGPEHeader \<Rightarrow> bool" where
  "wf_VxLanGPEHeader x \<longleftrightarrow>
     uint_ok 1 (vxlan_flags x) \<and> uint_ok 2 (vxlan_reserved1 x) \<and> uint_ok 1 (next_proto x)
     \<and> length (vni x) = 3 \<and> uint_ok 1 (vxlan_reserved2 x)"

definition wf_NshHeader :: "NshHeader \<Rightarrow> bool" where
  "wf_NshHeader x \<longleftrightarrow>
     uint_ok 2 (nsh_flags_length x) \<and> uint_ok 1 (nsh_md_type x) \<and> uint_ok 1 (nsh_np x)
     \<and> uint_ok 4 (nsh_sph x) \<and> uint_ok 4 (nsh_ctx1 x) \<and> uint_ok 4 (nsh_ctx2 x)
     \<and> uint_ok 4 (nsh_ctx3 x) \<and> uint_ok 4 (nsh_ctx4 x)"

definition wf_TcpHeaderWithoutOptions :: "TcpHeaderWithoutOptions \<Rightarrow> bool" where
  "wf_TcpHeaderWithoutOptions x \<longleftrightarrow>
     uint_ok 2 (tcp_src_port x) \<and> uint_ok 2 (tcp_dst_port x)
     \<and> uint_ok 4 (tcp_seq_number x) \<and> uint_ok 4 (tcp_ack x)
     \<and> uint_ok 1 (tcp_byte_data_offset x) \<and> uint_ok 1 (tcp_flags x)
     \<and> uint_ok 2 (tcp_win_size x) \<and> uint_ok 2 (tcp_checksum x)
     \<and> uint_ok 2 (tcp_urgent_ptr x)"

definition wf_PseudoHeader :: "PseudoHeader \<Rightarrow> bool" where
  "wf_PseudoHeader x \<longleftrightarrow>
     length (src x) = 4 \<and> length (dst x) = 4 \<and> uint_ok 1 (zero x)
     \<and> uint_ok 1 (protocol x) \<and> uint_ok 2 (tcp_length x)"

section \<open>The layout of frames on the wire\<close>

text \<open>
  The claims about the pipelines speak of frames that parse, of the inner 7-tuple key and
  of the six slices taken from a frame. The definitions of this section say what these
  are at fixed offsets of the frame, following the header sizes of the specification
  (Ethernet 14, IPv4 20, UDP 8, VXLAN-GPE 8, NSH 24, TCP base header 20); they are not
  part of the program. The lemmas \<open>parse_bare_iff\<close> and \<open>parse_stack_iff\<close> below show that
  they describe exactly the frames on which the parsers of the program succeed, and what
  the parsers return on them.

  A bare frame parses as Ethernet (type 0x0800), IPv4 (protocol 6) and TCP when it holds
  the three headers and says so. The header length nibble must be 5: the constructor
  \<open>StructIpHeader\<close> takes 20 bytes and nothing else.
\<close>

definition parses_bare :: "bytes \<Rightarrow> bool" where
  "parses_bare frame \<longleftrightarrow>
     54 \<le> length frame \<and> from_bytes_big (slice 12 14 frame) = 0x0800
     \<and> uint (frame ! 14) AND 0x0F = 5 \<and> from_bytes_big (slice 23 24 frame) = 6"

text \<open>An encapsulated frame parses fully when it holds the nine headers (142 bytes) and
  passes the three tests; the inner IPv4 header, at offset 102, must be 20 bytes long as
  well. Nothing else is tested: not the NSH ethertype, not the inner ethertype or
  protocol.\<close>

definition parses_fully :: "bytes \<Rightarrow> bool" where
  "parses_fully frame \<longleftrightarrow>
     142 \<le> length frame \<and> from_bytes_big (slice 12 14 frame) = 0x0800
     \<and> uint (frame ! 14) AND 0x0F = 5 \<and> from_bytes_big (slice 23 24 frame) = 17
     \<and> from_bytes_big (slice 36 38 frame) = 4790 \<and> uint (frame ! 102) AND 0x0F = 5"

text \<open>The 7-tuple \<open>(eth_dst, eth_src, eth_type, ip_dst, ip_src, tcp_dst_port,
  tcp_src_port)\<close> of a bare frame, and the exchange of sources and destinations.\<close>

definition frame_key :: "bytes \<Rightarrow> key" where
  "frame_key frame =
     (slice 0 6 frame, slice 6 12 frame, from_bytes_big (slice 12 14 frame),
      slice 30 34 frame, slice 26 30 frame,
      from_bytes_big (slice 36 38 frame), from_bytes_big (slice 34 36 frame))"

definition swap_key :: "key \<Rightarrow> key" where
  "swap_key k =
     (case k of (e_dst, e_src, e_type, i_dst, i_src, t_dst_port, t_src_port) \<Rightarrow>
        (e_src, e_dst, e_type, i_src, i_dst, t_src_port, t_dst_port))"

text \<open>The six slices of an encapsulated frame (outer Ethernet, outer IPv4, UDP, VXLAN-GPE,
  NSH-carrying Ethernet, NSH) and the inner frame that follows them.\<close>

definition frame_bundle :: "bytes \<Rightarrow> header_bundle" where
  "frame_bundle frame =
     (slice 0 14 frame, slice 14 34 frame, slice 34 42 frame, slice 42 50 frame,
      slice 50 64 frame, slice 64 88 frame)"

definition inner_frame :: "bytes \<Rightarrow> bytes" where
  "inner_frame frame = drop 88 frame"

text \<open>A bundle as the de-encapsulation pipeline stores it has slices of these sizes
  (lemma \<open>deencapsulate_tables_wf\<close>).\<close>

definition bundle_wf :: "header_bundle \<Rightarrow> bool" where
  "bundle_wf b \<longleftrightarrow>
     (case b of (oe, oi, u, v, en, n) \<Rightarrow>
        length oe = 14 \<and> length oi = 20 \<and> length u = 8 \<and> length v = 8 \<and> length en = 14
        \<and> length n = 24)"

definition tables_wf :: "'n world \<Rightarrow> bool" where
  "tables_wf w \<longleftrightarrow>
     (\<forall>k b. sessions w k = Some b \<longrightarrow> bundle_wf b)
     \<and> (\<forall>k b. sessions_reply_info w k = Some b \<longrightarrow> bundle_wf b)"

text \<open>
  A frame that one of the three value tests of the de-encapsulation pipeline turns away,
  the headers read up to the failing test being whole and of their fixed sizes: the
  Ethernet header is whole (14 bytes) and its ethertype is not 0x0800; or the ethertype is
  0x0800, the IPv4 header is whole with a header length of 5 words (20 bytes) and its
  protocol is not 17; or the protocol is 17, the UDP header is whole (8 bytes) and its
  destination port is not 4790.
\<close>

definition turned_away :: "bytes \<Rightarrow> bool" where
  "turned_away frame \<longleftrightarrow>
     14 \<le> length frame
     \<and> (from_bytes_big (slice 12 14 frame) \<noteq> 0x0800
        \<or> (34 \<le> length frame \<and> uint (frame ! 14) AND 0x0F = 5
           \<and> (from_bytes_big (slice 23 24 frame) \<noteq> 17
              \<or> (42 \<le> length frame \<and> from_bytes_big (slice 36 38 frame) \<noteq> 4790))))"

section \<open>The one's-complement sum of the specification\<close>

text \<open>
  The specification's 16-bit one's-complement sum of a buffer: the sum of its 16-bit words
  in network byte order (a buffer of odd length padded with a zero byte), folded twice.
  These two definitions follow the words of the specification, not the program, whose
  routine is \<open>calculate_checksum\<close>; a header verifies when this sum is 0xFFFF.
\<close>

fun words_be :: "bytes \<Rightarrow> int list" where
  "words_be (a # b # r) = (256 * uint a + uint b) # words_be r"
| "words_be [a] = [256 * uint a]"
| "words_be [] = []"

definition fold16 :: "int \<Rightarrow> int" where
  "fold16 s0 =
     (let s = drop_bit 16 s0 + (s0 AND 0xffff);
          s = s + drop_bit 16 s
      in s AND 0xffff)"

definition ones_complement_sum :: "bytes \<Rightarrow> int" where
  "ones_complement_sum bs = fold16 (sum_list (words_be bs))"

section \<open>Sockets of the environment\<close>

text \<open>
  A socket makes progress when every \<^verbatim>\<open>send\<close> of a non-empty buffer takes at least one
  byte and at most the whole buffer, as a blocking socket does when it does not fail.
\<close>

definition send_progress :: "(sckt \<Rightarrow> bytes \<Rightarrow> 'n \<Rightarrow> nat \<times> 'n) \<Rightarrow> bool" where
  "send_progress send \<longleftrightarrow>
     (\<forall>s buf n. buf \<noteq> [] \<longrightarrow> 1 \<le> fst (send s buf n) \<and> fst (send s buf n) \<le> length buf)"

text \<open>Two sockets to run the model on: one takes every buffer whole, the other takes half
  of it, rounded up. Both count their calls.\<close>

definition send_whole :: "sckt \<Rightarrow> bytes \<Rightarrow> nat \<Rightarrow> nat \<times> nat" where
  "send_whole s buf n = (length buf, Suc n)"

definition send_half :: "sckt \<Rightarrow> bytes \<Rightarrow> nat \<Rightarrow> nat \<times> nat" where
  "send_half s buf n = ((length buf + 1) div 2, Suc n)"

text \<open>The world at start-up: both tables empty, nothing sent.\<close>

definition world0 :: "nat world" where
  "world0 = \<lparr>sessions = Map.empty, sessions_reply_info = Map.empty, net = 0, sent_log = []\<rparr>"

section \<open>Example frames\<close>

text \<open>
  The frames of the first two scenarios: an encapsulated frame whose inner packet goes from
  10.0.0.1, port 40000, to 10.0.0.2, port 80, under an NSH with SPI 100 and SI 5; the bare
  frame of the same flow; and the reply, with the inner addresses and ports exchanged,
  under its own outer headers and an NSH with SPI 101 and SI 7.
\<close>

definition ex_outer_eth :: bytes where
  "ex_outer_eth =
     [0x02, 0x00, 0x00, 0x00, 0x00, 0x01, 0x02, 0x00, 0x00, 0x00, 0x00, 0x02, 0x08, 0x00]"

definition ex_outer_ip :: bytes where
  "ex_outer_ip =
     [0x45, 0x00, 0x00, 0x80, 0x00, 0x01, 0x40, 0x00, 0x40, 0x11, 0xB9, 0x18, 0xC0, 0xA8,
      0x00, 0x01, 0xC0, 0xA8, 0x00, 0x02]"

definition ex_udp :: bytes where
  "ex_udp =
     [0xC0, 0x00, 0x12, 0xB6, 0x00, 0x6C, 0x00, 0x00]"

definition ex_vxlan :: bytes where
  "ex_vxlan =
     [0x0C, 0x00, 0x00, 0x04, 0x00, 0x00, 0x2A, 0x00]"

definition ex_eth_nsh :: bytes where
  "ex_eth_nsh =
     [0x02, 0x00, 0x00, 0x00, 0x00, 0x03, 0x02, 0x00, 0x00, 0x00, 0x00, 0x04, 0x89, 0x4F]"

definition ex_nsh :: bytes where
  "ex_nsh =
     [0x00, 0x06, 0x01, 0x03, 0x00, 0x00, 0x64, 0x05, 0x00, 0x00, 0x00, 0x00, 0x00, 0x00,
      0x00, 0x00, 0x00, 0x00, 0x00, 0x00, 0x00, 0x00, 0x00, 0x00]"

definition ex_bare :: bytes where
  "ex_bare =
     [0x02, 0x00, 0x00, 0x00, 0x00, 0x06, 0x02, 0x00, 0x00, 0x00, 0x00, 0x05, 0x08, 0x00,
      0x45, 0x00, 0x00, 0x28, 0x00, 0x01, 0x40, 0x00, 0x40, 0x06, 0x26, 0xCD, 0x0A, 0x00,
      0x00, 0x01, 0x0A, 0x00, 0x00, 0x02, 0x9C, 0x40, 0x00, 0x50, 0x00, 0x00, 0x00, 0x01,
      0x00, 0x00, 0x00, 0x00, 0x50, 0x02, 0x72, 0x10, 0x00, 0x00, 0x00, 0x00]"

definition ex_reply_outer_eth :: bytes where
  "ex_reply_outer_eth =
     [0x02, 0x00, 0x00, 0x00, 0x00, 0x01, 0x02, 0x00, 0x00, 0x00, 0x00, 0x07, 0x08, 0x00]"

definition ex_reply_outer_ip :: bytes where
  "ex_reply_outer_ip =
     [0x45, 0x00, 0x00, 0x80, 0x00, 0x02, 0x40, 0x00, 0x40, 0x11, 0xB9, 0x15, 0xC0, 0xA8,
      0x00, 0x03, 0xC0, 0xA8, 0x00, 0x02]"

definition ex_reply_nsh :: bytes where
  "ex_reply_nsh =
     [0x00, 0x06, 0x01, 0x03, 0x00, 0x00, 0x65, 0x07, 0x00, 0x00, 0x00, 0x00, 0x00, 0x00,
      0x00, 0x00, 0x00, 0x00, 0x00, 0x00, 0x00, 0x00, 0x00, 0x00]"

definition ex_reply_bare :: bytes where
  "ex_reply_bare =
     [0x02, 0x00, 0x00, 0x00, 0x00, 0x05, 0x02, 0x00, 0x00, 0x00, 0x00, 0x06, 0x08, 0x00,
      0x45, 0x00, 0x00, 0x28, 0x00, 0x09, 0x40, 0x00, 0x40, 0x06, 0x26, 0xC5, 0x0A, 0x00,
      0x00, 0x02, 0x0A, 0x00, 0x00, 0x01, 0x00, 0x50, 0x9C, 0x40, 0x00, 0x00, 0x00, 0x07,
      0x00, 0x00, 0x00, 0x02, 0x50, 0x12, 0x72, 0x10, 0x00, 0x00, 0x00, 0x00]"

definition ex_frame :: bytes where
  "ex_frame = ex_outer_eth @ ex_outer_ip @ ex_udp @ ex_vxlan @ ex_eth_nsh @ ex_nsh @ ex_bare"

definition ex_reply_frame :: bytes where
  "ex_reply_frame =
     ex_reply_outer_eth @ ex_reply_outer_ip @ ex_udp @ ex_vxlan @ ex_eth_nsh @ ex_reply_nsh
     @ ex_reply_bare"

text \<open>The header records of the first frame, and the pseudo-header of its inner packet.\<close>

definition ex_eth_nt :: EthHeader where
  "ex_eth_nt =
     \<lparr>eth_dst = [0x02, 0x00, 0x00, 0x00, 0x00, 0x01],
      eth_src = [0x02, 0x00, 0x00, 0x00, 0x00, 0x02], eth_type = 0x0800\<rparr>"

definition ex_ip_nt :: IpHeader where
  "ex_ip_nt =
     \<lparr>ip_ver_ihl_type = 0x4500, ip_total_length = 128, ip_id = 1,
      ip_flags_frag_offset = 0x4000, ip_time2live = 64, ip_protocol = 17,
      ip_hdr_checksum = 0xB918, ip_src = [0xC0, 0xA8, 0x00, 0x01],
      ip_dst = [0xC0, 0xA8, 0x00, 0x02]\<rparr>"

definition ex_udp_nt :: UdpHeader where
  "ex_udp_nt =
     \<lparr>udp_src_port = 49152, udp_dst_port = 4790, udp_data_length = 108, udp_checksum = 0\<rparr>"

definition ex_vxlan_nt :: VxLanGPEHeader where
  "ex_vxlan_nt =
     \<lparr>vxlan_flags = 0x0C, vxlan_reserved1 = 0, next_proto = 4, vni = [0x00, 0x00, 0x2A],
      vxlan_reserved2 = 0\<rparr>"

definition ex_nsh_nt :: NshHeader where
  "ex_nsh_nt =
     \<lparr>nsh_flags_length = 6, nsh_md_type = 1, nsh_np = 3, nsh_sph = 0x6405,
      nsh_ctx1 = 0, nsh_ctx2 = 0, nsh_ctx3 = 0, nsh_ctx4 = 0\<rparr>"

definition ex_tcp_nt :: TcpHeaderWithoutOptions where
  "ex_tcp_nt =
     \<lparr>tcp_src_port = 40000, tcp_dst_port = 80, tcp_seq_number = 1, tcp_ack = 0,
      tcp_byte_data_offset = 0x50, tcp_flags = 0x02, tcp_win_size = 29200,
      tcp_checksum = 0, tcp_urgent_ptr = 0\<rparr>"

definition ex_pseudo_nt :: PseudoHeader where
  "ex_pseudo_nt =
     \<lparr>src = [0x0A, 0x00, 0x00, 0x01], dst = [0x0A, 0x00, 0x00, 0x02], zero = 0,
      protocol = 6, tcp_length = 20\<rparr>"

text \<open>The bundles of the two encapsulated frames, and the world in which the forward
  table holds the first under the key of the bare frame.\<close>

definition ex_bundle :: header_bundle where
  "ex_bundle = (ex_outer_eth, ex_outer_ip, ex_udp, ex_vxlan, ex_eth_nsh, ex_nsh)"

definition ex_reply_bundle :: header_bundle where
  "ex_reply_bundle =
     (ex_reply_outer_eth, ex_reply_outer_ip, ex_udp, ex_vxlan, ex_eth_nsh, ex_reply_nsh)"

definition world1 :: "nat world" where
  "world1 = world0\<lparr>sessions := [frame_key ex_bare \<mapsto> ex_bundle]\<rparr>"

text \<open>Frames that do not parse: the first frame with ethertype 0x86DD (IPv6), with UDP
  destination port 4789 (plain VXLAN), with an outer IPv4 header length of 6 words, with
  outer protocol 6 (TCP), and cut after 74 bytes, ten bytes into its NSH header.\<close>

definition ex_frame_ipv6 :: bytes where
  "ex_frame_ipv6 = take 12 ex_frame @ [0x86, 0xDD] @ drop 14 ex_frame"

definition ex_frame_4789 :: bytes where
  "ex_frame_4789 = take 36 ex_frame @ [0x12, 0xB5] @ drop 38 ex_frame"

definition ex_frame_ihl6 :: bytes where
  "ex_frame_ihl6 = take 14 ex_frame @ [0x46] @ drop 15 ex_frame"

definition ex_frame_tcp :: bytes where
  "ex_frame_tcp = take 23 ex_frame @ [0x06] @ drop 24 ex_frame"

definition ex_frame_short :: bytes where
  "ex_frame_short = take 74 ex_frame"

text \<open>An encapsulated frame of the same flow whose NSH has SPI 0 and SI 0, its bundle,
  and the world that the de-encapsulation of this frame makes of the first one.\<close>

definition ex_nsh_si0 :: bytes where
  "ex_nsh_si0 =
     [0x00, 0x06, 0x01, 0x03, 0x00, 0x00, 0x00, 0x00, 0x00, 0x00, 0x00, 0x00, 0x00, 0x00,
      0x00, 0x00, 0x00, 0x00, 0x00, 0x00, 0x00, 0x00, 0x00, 0x00]"

definition ex_frame_si0 :: bytes where
  "ex_frame_si0 =
     ex_outer_eth @ ex_outer_ip @ ex_udp @ ex_vxlan @ ex_eth_nsh @ ex_nsh_si0 @ ex_bare"

definition ex_bundle_si0 :: header_bundle where
  "ex_bundle_si0 = (ex_outer_eth, ex_outer_ip, ex_udp, ex_vxlan, ex_eth_nsh, ex_nsh_si0)"

definition world_si0 :: "nat world" where
  "world_si0 =
     \<lparr>sessions = [frame_key ex_bare \<mapsto> ex_bundle_si0], sessions_reply_info = Map.empty,
      net = 1, sent_log = [(sckt_unencap_out, ex_bare)]\<rparr>"

section \<open>Properties of the struct model\<close>

lemma from_bytes_big_Nil: "from_bytes_big [] = 0"
  by (simp add: from_bytes_big_def)

lemma from_bytes_big_snoc: "from_bytes_big (bs @ [b]) = from_bytes_big bs * 256 + uint b"
  by (simp add: from_bytes_big_def)

lemma uint_byte_bounds: "0 \<le> uint (b::byte) \<and> uint b < 256"
  using uint_bounded [of b] by simp

lemma from_bytes_big_bounds: "0 \<le> from_bytes_big bs \<and> from_bytes_big bs < 256 ^ length bs"
proof (induction bs rule: rev_induct)
  case Nil
  show ?case by (simp add: from_bytes_big_Nil)
next
  case (snoc b bs)
  have b: "0 \<le> uint b" "uint b < 256" using uint_byte_bounds [of b] by simp_all
  from snoc have "from_bytes_big bs + 1 \<le> 256 ^ length bs" by simp
  then have "(from_bytes_big bs + 1) * 256 \<le> 256 ^ length bs * 256" by simp
  with snoc b show ?case by (simp add: from_bytes_big_snoc algebra_simps)
qed

lemma length_to_bytes_big: "length (to_bytes_big n v) = n"
  by (induction n arbitrary: v) simp_all

lemma len8: "LENGTH(8) = 8"
  by simp

lemma to_bytes_big_from: "to_bytes_big (length bs) (from_bytes_big bs) = bs"
proof (induction bs rule: rev_induct)
  case Nil
  show ?case by simp
next
  case (snoc b bs)
  define v where "v = from_bytes_big bs * 256 + uint b"
  have b: "0 \<le> uint b" "uint b < 256" using uint_byte_bounds [of b] by simp_all
  then have d: "v div 256 = from_bytes_big bs"
    by (simp add: v_def)
  have "take_bit 8 v = take_bit 8 (uint b)"
    by (simp add: v_def take_bit_eq_mod)
  then have "(word_of_int v :: byte) = word_of_int (uint b)"
    by (simp only: word_of_int_eq_iff len8)
  then have w: "(word_of_int v :: byte) = b"
    by simp
  have "from_bytes_big (bs @ [b]) = v"
    by (simp add: v_def from_bytes_big_snoc)
  then show ?case using snoc by (simp add: d w)
qed

lemma from_bytes_big_to: "0 \<le> v \<Longrightarrow> v < 256 ^ n \<Longrightarrow> from_bytes_big (to_bytes_big n v) = v"
proof (induction n arbitrary: v)
  case 0
  then show ?case by (simp add: from_bytes_big_Nil)
next
  case (Suc n)
  have "0 \<le> v div 256" using Suc.prems by simp
  moreover have "v div 256 < 256 ^ n" using Suc.prems by (simp add: div_less_iff_less_mult)
  ultimately have ih: "from_bytes_big (to_bytes_big n (v div 256)) = v div 256"
    by (rule Suc.IH)
  have u: "uint (word_of_int v :: byte) = v mod 256"
    by (simp add: uint_word_of_int take_bit_eq_mod)
  show ?case by (simp add: from_bytes_big_snoc ih u)
qed

lemma to_bytes_big_numeral:
  "to_bytes_big (numeral k) v = to_bytes_big (pred_numeral k) (v div 256) @ [word_of_int v]"
  by (simp add: numeral_eq_Suc)

lemma to_bytes_big_1: "to_bytes_big 1 v = [word_of_int v]"
  using to_bytes_big.simps(2) [of 0 v] by simp

lemma slice_0: "slice 0 n xs = take n xs"
  by (simp add: slice_def)

lemma length_slice: "j \<le> length xs \<Longrightarrow> length (slice i j xs) = j - i"
  by (simp add: slice_def)

lemma slice_append: "i \<le> j \<Longrightarrow> j \<le> k \<Longrightarrow> slice i j xs @ slice j k xs = slice i k xs"
proof -
  assume a: "i \<le> j" "j \<le> k"
  have "take (j - i) (drop i xs) @ take (k - j) (drop (j - i) (drop i xs)) = take ((j - i) + (k - j)) (drop i xs)"
    by (simp only: take_add)
  with a show ?thesis by (simp add: slice_def)
qed

lemma slice_append2: "i \<le> j \<Longrightarrow> j \<le> k \<Longrightarrow> slice i j xs @ slice j k xs @ ys = slice i k xs @ ys"
  using slice_append [of i j k xs] by simp

lemma slice_all: "length xs \<le> n \<Longrightarrow> slice 0 n xs = xs"
  by (simp add: slice_def)

lemma to_bytes_big_unpack:
  "j \<le> length buf \<Longrightarrow> n = j - i \<Longrightarrow> to_bytes_big n (unpack_uint i j buf) = slice i j buf"
  unfolding unpack_uint_def
  using to_bytes_big_from [of "slice i j buf"] by (simp add: length_slice)

lemma uint_ok_unpack: "j \<le> length buf \<Longrightarrow> n = j - i \<Longrightarrow> uint_ok n (unpack_uint i j buf)"
  unfolding unpack_uint_def uint_ok_def
  using from_bytes_big_bounds [of "slice i j buf"] by (simp add: length_slice)

lemma pack_s_unpack:
  "j \<le> length buf \<Longrightarrow> n = j - i \<Longrightarrow> pack_s n (unpack_s i j buf) = slice i j buf"
  by (simp add: pack_s_def unpack_s_def length_slice)

lemmas repack = uint_ok_unpack pack_s_unpack to_bytes_big_unpack slice_append slice_append2 slice_all

lemma pack_unpack_EthHeader:
  assumes "StructEthHeader h = Inr nt" shows "pack_EthHeader nt = Inr h"
proof -
  from assms have l: "length h = 14" and nt: "nt = \<lparr>eth_dst = unpack_s 0 6 h, eth_src = unpack_s 6 12 h, eth_type = unpack_uint 12 14 h\<rparr>"
    by (auto simp: StructEthHeader_def split: if_splits)
  show ?thesis
    by (simp add: nt pack_EthHeader_def l repack del: to_bytes_big.simps)
qed

lemma pack_unpack_NshHeader:
  assumes "StructNshHeader h = Inr nt" shows "pack_NshHeader nt = Inr h"
proof -
  from assms have l: "length h = 24" and nt: "nt = \<lparr>nsh_flags_length = unpack_uint 0 2 h, nsh_md_type = unpack_uint 2 3 h,
                nsh_np = unpack_uint 3 4 h, nsh_sph = unpack_uint 4 8 h,
                nsh_ctx1 = unpack_uint 8 12 h, nsh_ctx2 = unpack_uint 12 16 h,
                nsh_ctx3 = unpack_uint 16 20 h, nsh_ctx4 = unpack_uint 20 24 h\<rparr>"
    by (auto simp: StructNshHeader_def split: if_splits)
  show ?thesis
    by (simp add: nt pack_NshHeader_def l repack del: to_bytes_big.simps)
qed

lemma pack_unpack_IpHeader:
  assumes "StructIpHeader h = Inr nt" shows "pack_IpHeader nt = Inr h"
proof -
  from assms have l: "length h = 20" and nt: "nt = \<lparr>ip_ver_ihl_type = unpack_uint 0 2 h, ip_total_length = unpack_uint 2 4 h,
                ip_id = unpack_uint 4 6 h, ip_flags_frag_offset = unpack_uint 6 8 h,
                ip_time2live = unpack_uint 8 9 h, ip_protocol = unpack_uint 9 10 h,
                ip_hdr_checksum = unpack_uint 10 12 h,
                ip_src = unpack_s 12 16 h, ip_dst = unpack_s 16 20 h\<rparr>"
    by (auto simp: StructIpHeader_def split: if_splits)
  show ?thesis
    by (simp add: nt pack_IpHeader_def l repack del: to_bytes_big.simps)
qed

section \<open>Round trip of the header codecs\<close>

lemmas unpack_defs = then_do_def length_to_bytes_big pack_s_def unpack_s_def unpack_uint_def
  slice_def from_bytes_big_to uint_ok_def

lemma unpack_pack_EthHeader:
  "wf_EthHeader x \<Longrightarrow> then_do (pack_EthHeader x) StructEthHeader = Inr x"
  by (cases x) (simp add: wf_EthHeader_def pack_EthHeader_def StructEthHeader_def unpack_defs
      del: to_bytes_big.simps)

lemma unpack_pack_IpHeader:
  "wf_IpHeader x \<Longrightarrow> then_do (pack_IpHeader x) StructIpHeader = Inr x"
  by (cases x) (simp add: wf_IpHeader_def pack_IpHeader_def StructIpHeader_def unpack_defs
      del: to_bytes_big.simps)

lemma unpack_pack_UdpHeader:
  "wf_UdpHeader x \<Longrightarrow> then_do (pack_UdpHeader x) StructUdpHeader = Inr x"
  by (cases x) (simp add: wf_UdpHeader_def pack_UdpHeader_def StructUdpHeader_def unpack_defs
      del: to_bytes_big.simps)

lemma unpack_pack_VxLanGPEHeader:
  "wf_VxLanGPEHeader x \<Longrightarrow> then_do (pack_VxLanGPEHeader x) StructVxLanGPEHeader = Inr x"
  by (cases x) (simp add: wf_VxLanGPEHeader_def pack_VxLanGPEHeader_def StructVxLanGPEHeader_def
      unpack_defs del: to_bytes_big.simps)

lemma unpack_pack_NshHeader:
  "wf_NshHeader x \<Longrightarrow> then_do (pack_NshHeader x) StructNshHeader = Inr x"
  by (cases x) (simp add: wf_NshHeader_def pack_NshHeader_def StructNshHeader_def unpack_defs
      del: to_bytes_big.simps)

lemma unpack_pack_TcpHeaderWithoutOptions:
  "wf_TcpHeaderWithoutOptions x \<Longrightarrow>
   then_do (pack_TcpHeaderWithoutOptions x) StructTcpHeaderWithoutOptions = Inr x"
  by (cases x) (simp add: wf_TcpHeaderWithoutOptions_def pack_TcpHeaderWithoutOptions_def
      StructTcpHeaderWithoutOptions_def unpack_defs del: to_bytes_big.simps)

lemma unpack_pack_PseudoHeader:
  "wf_PseudoHeader x \<Longrightarrow> then_do (pack_PseudoHeader x) StructPseudoHeader = Inr x"
  by (cases x) (simp add: wf_PseudoHeader_def pack_PseudoHeader_def StructPseudoHeader_def
      unpack_defs del: to_bytes_big.simps)

text \<open>
  C9: for every well-formed header record of each of the seven codec types (Ethernet,
  IPv4, UDP, VXLAN-GPE, NSH, TCP base header, pseudo-header), packing succeeds and parsing
  the packed bytes gives the record back: \<open>parse (pack x) = x\<close>.
\<close>

theorem codec_roundtrip:
  "(wf_EthHeader eth \<longrightarrow> then_do (pack_EthHeader eth) StructEthHeader = Inr eth)
   \<and> (wf_IpHeader ip \<longrightarrow> then_do (pack_IpHeader ip) StructIpHeader = Inr ip)
   \<and> (wf_UdpHeader udp \<longrightarrow> then_do (pack_UdpHeader udp) StructUdpHeader = Inr udp)
   \<and> (wf_VxLanGPEHeader vx \<longrightarrow>
        then_do (pack_VxLanGPEHeader vx) StructVxLanGPEHeader = Inr vx)
   \<and> (wf_NshHeader nsh \<longrightarrow> then_do (pack_NshHeader nsh) StructNshHeader = Inr nsh)
   \<and> (wf_TcpHeaderWithoutOptions tcp \<longrightarrow>
        then_do (pack_TcpHeaderWithoutOptions tcp) StructTcpHeaderWithoutOptions = Inr tcp)
   \<and> (wf_PseudoHeader ph \<longrightarrow> then_do (pack_PseudoHeader ph) StructPseudoHeader = Inr ph)"
  using unpack_pack_EthHeader [of eth] unpack_pack_IpHeader [of ip] unpack_pack_UdpHeader [of udp]
    unpack_pack_VxLanGPEHeader [of vx] unpack_pack_NshHeader [of nsh]
    unpack_pack_TcpHeaderWithoutOptions [of tcp] unpack_pack_PseudoHeader [of ph]
  by blast

theorem codec_roundtrip_witness:
  "wf_EthHeader ex_eth_nt \<and> then_do (pack_EthHeader ex_eth_nt) StructEthHeader = Inr ex_eth_nt
   \<and> wf_IpHeader ex_ip_nt \<and> then_do (pack_IpHeader ex_ip_nt) StructIpHeader = Inr ex_ip_nt
   \<and> wf_UdpHeader ex_udp_nt \<and> then_do (pack_UdpHeader ex_udp_nt) StructUdpHeader = Inr ex_udp_nt
   \<and> wf_VxLanGPEHeader ex_vxlan_nt
   \<and> then_do (pack_VxLanGPEHeader ex_vxlan_nt) StructVxLanGPEHeader = Inr ex_vxlan_nt
   \<and> wf_NshHeader ex_nsh_nt \<and> then_do (pack_NshHeader ex_nsh_nt) StructNshHeader = Inr ex_nsh_nt
   \<and> wf_TcpHeaderWithoutOptions ex_tcp_nt
   \<and> then_do (pack_TcpHeaderWithoutOptions ex_tcp_nt) StructTcpHeaderWithoutOptions
       = Inr ex_tcp_nt
   \<and> wf_PseudoHeader ex_pseudo_nt
   \<and> then_do (pack_PseudoHeader ex_pseudo_nt) StructPseudoHeader = Inr ex_pseudo_nt"
proof -
  have w1: "wf_EthHeader ex_eth_nt"
    by (simp add: wf_EthHeader_def ex_eth_nt_def uint_ok_def)
  have w2: "wf_IpHeader ex_ip_nt"
    by (simp add: wf_IpHeader_def ex_ip_nt_def uint_ok_def)
  have w3: "wf_UdpHeader ex_udp_nt"
    by (simp add: wf_UdpHeader_def ex_udp_nt_def uint_ok_def)
  have w4: "wf_VxLanGPEHeader ex_vxlan_nt"
    by (simp add: wf_VxLanGPEHeader_def ex_vxlan_nt_def uint_ok_def)
  have w5: "wf_NshHeader ex_nsh_nt"
    by (simp add: wf_NshHeader_def ex_nsh_nt_def uint_ok_def)
  have w6: "wf_TcpHeaderWithoutOptions ex_tcp_nt"
    by (simp add: wf_TcpHeaderWithoutOptions_def ex_tcp_nt_def uint_ok_def)
  have w7: "wf_PseudoHeader ex_pseudo_nt"
    by (simp add: wf_PseudoHeader_def ex_pseudo_nt_def uint_ok_def)
  show ?thesis
    using codec_roundtrip [of ex_eth_nt ex_ip_nt ex_udp_nt ex_vxlan_nt ex_nsh_nt ex_tcp_nt
        ex_pseudo_nt] w1 w2 w3 w4 w5 w6 w7
    by simp
qed

section \<open>The NSH service index\<close>

lemma and_ff: "(x::int) AND 0xFF = x mod 256"
  using take_bit_eq_mask [of 8 x] by (simp add: take_bit_eq_mod mask_eq_exp_minus_1)

lemma hi24: "(0xFFFFFF00::int) = push_bit 8 (mask 24)"
  by (simp add: push_bit_eq_mult mask_eq_exp_minus_1)

lemma spi_div: "drop_bit 8 ((x::int) AND 0xFFFFFF00) = (x div 256) mod 2 ^ 24"
proof -
  have "drop_bit 8 (x AND push_bit 8 (mask 24)) = drop_bit 8 x AND mask 24"
    by (simp add: drop_bit_push_bit)
  also have "\<dots> = take_bit 24 (drop_bit 8 x)"
    by (simp only: take_bit_eq_mask)
  also have "\<dots> = (x div 256) mod 2 ^ 24"
    by (simp add: take_bit_eq_mod drop_bit_eq_div)
  finally have "drop_bit 8 (x AND push_bit 8 (mask 24)) = (x div 256) mod 2 ^ 24" .
  then show ?thesis by (simp only: flip: hi24)
qed

lemma get_nsh_si_mod: "get_nsh_si nt = nsh_sph nt mod 256"
  by (simp add: get_nsh_si_def and_ff)

lemma get_nsh_spi_div:
  assumes "0 \<le> nsh_sph nt" "nsh_sph nt < 2 ^ 32"
  shows "get_nsh_spi nt = nsh_sph nt div 256"
proof -
  have "nsh_sph nt div 256 < 2 ^ 24" using assms by simp
  moreover have "0 \<le> nsh_sph nt div 256" using assms by simp
  ultimately show ?thesis unfolding get_nsh_spi_def spi_div by simp
qed

lemma decr_sph:
  assumes "0 \<le> nsh_sph nt" "nsh_sph nt < 2 ^ 32"
  shows "make_nsh_sph_with_si nt (get_nsh_si nt - 1) = nsh_sph nt - 1"
  using assms by (simp add: make_nsh_sph_with_si_def get_nsh_spi_div get_nsh_si_mod push_bit_eq_mult)

lemma uint_ok_pow: "uint_ok n v \<longleftrightarrow> 0 \<le> v \<and> v < 256 ^ n"
  by (simp add: uint_ok_def)

lemma StructNshHeader_Inr:
  "length h = 24 \<Longrightarrow> \<exists>nt. StructNshHeader h = Inr nt"
  by (simp add: StructNshHeader_def)

lemma nsh_sph_range:
  assumes "StructNshHeader h = Inr nt"
  shows "0 \<le> nsh_sph nt \<and> nsh_sph nt < 2 ^ 32"
proof -
  from assms have l: "length h = 24" and s: "nsh_sph nt = unpack_uint 4 8 h"
    by (auto simp: StructNshHeader_def split: if_splits)
  have "uint_ok 4 (unpack_uint 4 8 h)" by (rule uint_ok_unpack) (simp_all add: l)
  then show ?thesis by (simp add: s uint_ok_def)
qed

text \<open>The bytes of a decremented big-endian integer: only the last byte changes, when it is not 0.\<close>

lemma to_bytes_big_decr:
  assumes "length bs = Suc n" "from_bytes_big bs mod 256 \<noteq> 0"
  shows "to_bytes_big (Suc n) (from_bytes_big bs - 1) = butlast bs @ [last bs - 1]"
proof -
  from assms(1) have ne: "bs \<noteq> []" by auto
  then have bs: "bs = butlast bs @ [last bs]" by simp
  have v: "from_bytes_big bs = from_bytes_big (butlast bs) * 256 + uint (last bs)"
    using from_bytes_big_snoc [of "butlast bs" "last bs"] bs by simp
  have b: "0 \<le> uint (last bs)" "uint (last bs) < 256"
    using uint_byte_bounds [of "last bs"] by simp_all
  from assms(2) v b have nz: "uint (last bs) \<noteq> 0" by simp
  with b have "1 \<le> uint (last bs)" by linarith
  then have "uint (1::byte) \<le> uint (last bs)" by simp
  then have u: "uint (last bs - 1) = uint (last bs) - 1"
    using uint_sub_lem [of 1 "last bs"] by simp
  have "from_bytes_big (butlast bs @ [last bs - 1]) = from_bytes_big bs - 1"
    by (simp add: from_bytes_big_snoc u v)
  moreover have "length (butlast bs @ [last bs - 1]) = Suc n" using assms(1) by simp
  ultimately show ?thesis
    using to_bytes_big_from [of "butlast bs @ [last bs - 1]"] by (simp del: to_bytes_big.simps)
qed


lemma pred_divmod256:
  fixes x :: int
  assumes "x mod 256 \<noteq> 0"
  shows div256_pred: "(x - 1) div 256 = x div 256"
    and mod256_pred: "(x - 1) mod 256 = x mod 256 - 1"
proof -
  have r: "0 \<le> x mod 256" "x mod 256 < 256" by simp_all
  have e: "x - 1 = 256 * (x div 256) + (x mod 256 - 1)" by simp
  have b: "0 \<le> x mod 256 - 1" "x mod 256 - 1 < 256" using assms r by linarith+
  show "(x - 1) div 256 = x div 256" using e b by (rule int_div_pos_eq)
  show "(x - 1) mod 256 = x mod 256 - 1" using e b by (rule int_mod_pos_eq)
qed

lemma wf_NshHeader_unpack:
  assumes "StructNshHeader h = Inr nt" shows "wf_NshHeader nt"
proof -
  from assms have l: "length h = 24" and nt: "nt = \<lparr>nsh_flags_length = unpack_uint 0 2 h, nsh_md_type = unpack_uint 2 3 h,
                nsh_np = unpack_uint 3 4 h, nsh_sph = unpack_uint 4 8 h,
                nsh_ctx1 = unpack_uint 8 12 h, nsh_ctx2 = unpack_uint 12 16 h,
                nsh_ctx3 = unpack_uint 16 20 h, nsh_ctx4 = unpack_uint 20 24 h\<rparr>"
    by (auto simp: StructNshHeader_def split: if_splits)
  show ?thesis by (simp add: nt wf_NshHeader_def l uint_ok_unpack)
qed

lemma pack_NshHeader_sph:
  assumes "StructNshHeader h = Inr nt" "uint_ok 4 v"
  shows "pack_NshHeader (nt\<lparr>nsh_sph := v\<rparr>) = Inr (slice 0 4 h @ to_bytes_big 4 v @ slice 8 24 h)"
proof -
  from assms have l: "length h = 24" and nt: "nt = \<lparr>nsh_flags_length = unpack_uint 0 2 h, nsh_md_type = unpack_uint 2 3 h,
                nsh_np = unpack_uint 3 4 h, nsh_sph = unpack_uint 4 8 h,
                nsh_ctx1 = unpack_uint 8 12 h, nsh_ctx2 = unpack_uint 12 16 h,
                nsh_ctx3 = unpack_uint 16 20 h, nsh_ctx4 = unpack_uint 20 24 h\<rparr>"
    by (auto simp: StructNshHeader_def split: if_splits)
  have "slice 0 2 h @ slice 2 3 h @ slice 3 4 h = slice 0 4 h"
    by (simp add: slice_append slice_append2)
  moreover have "slice 8 12 h @ slice 12 16 h @ slice 16 20 h @ slice 20 24 h = slice 8 24 h"
    by (simp add: slice_append slice_append2)
  ultimately show ?thesis using assms(2)
    by (simp add: nt pack_NshHeader_def l uint_ok_unpack to_bytes_big_unpack del: to_bytes_big.simps)
qed

lemma make_nsh_decr_si_result:
  assumes len: "length h = 24"
      and nt: "StructNshHeader h = Inr nt"
      and si: "1 \<le> get_nsh_si nt"
  shows "\<exists>h' nt'. make_nsh_decr_si h = Inr h' \<and> length h' = 24
           \<and> h' = take 7 h @ [h ! 7 - 1] @ drop 8 h
           \<and> StructNshHeader h' = Inr nt'
           \<and> nt' = nt\<lparr>nsh_sph := nsh_sph nt - 1\<rparr>
           \<and> get_nsh_si nt' = get_nsh_si nt - 1
           \<and> get_nsh_spi nt' = get_nsh_spi nt
           \<and> nsh_flags_length nt' = nsh_flags_length nt
           \<and> nsh_md_type nt' = nsh_md_type nt \<and> nsh_np nt' = nsh_np nt
           \<and> nsh_ctx1 nt' = nsh_ctx1 nt \<and> nsh_ctx2 nt' = nsh_ctx2 nt
           \<and> nsh_ctx3 nt' = nsh_ctx3 nt \<and> nsh_ctx4 nt' = nsh_ctx4 nt"
proof -
  define sph where "sph = nsh_sph nt"
  define nt' where "nt' = nt\<lparr>nsh_sph := sph - 1\<rparr>"
  have r: "0 \<le> sph" "sph < 2 ^ 32" using nsh_sph_range [OF nt] by (simp_all add: sph_def)
  from si have nz: "sph mod 256 \<noteq> 0" by (simp add: get_nsh_si_mod sph_def)
  with r have pos: "1 \<le> sph" by (cases "sph = 0") simp_all
  have r': "0 \<le> nsh_sph nt'" "nsh_sph nt' < 2 ^ 32" using r pos by (simp_all add: nt'_def)
  have ok: "uint_ok 4 (sph - 1)" using r pos by (simp add: uint_ok_def)
  have new: "make_nsh_sph_with_si nt (get_nsh_si nt - 1) = sph - 1"
    using decr_sph [of nt] r by (simp add: sph_def)
  have sphb: "sph = from_bytes_big (slice 4 8 h)"
    using nt by (auto simp: sph_def StructNshHeader_def unpack_uint_def split: if_splits)
  have l4: "length (slice 4 8 h) = Suc 3" by (simp add: slice_def len)
  have "to_bytes_big (Suc 3) (sph - 1) = butlast (slice 4 8 h) @ [last (slice 4 8 h) - 1]"
    unfolding sphb using l4 nz [unfolded sphb] by (rule to_bytes_big_decr)
  moreover have "butlast (slice 4 8 h) = slice 4 7 h"
    by (simp add: slice_def butlast_take len)
  moreover have "last (slice 4 8 h) = h ! 7"
    by (simp add: slice_def last_conv_nth len)
  ultimately have b4: "to_bytes_big 4 (sph - 1) = slice 4 7 h @ [h ! 7 - 1]"
    by (simp del: to_bytes_big.simps)
  have t7: "slice 0 4 h @ slice 4 7 h = take 7 h"
    using take_add [of 4 3 h] by (simp add: slice_def)
  have d8: "slice 8 24 h = drop 8 h" by (simp add: slice_def len)
  have packed: "pack_NshHeader nt' = Inr (take 7 h @ [h ! 7 - 1] @ drop 8 h)"
    unfolding nt'_def pack_NshHeader_sph [OF nt ok] b4 using t7 d8 by simp
  have run: "make_nsh_decr_si h = Inr (take 7 h @ [h ! 7 - 1] @ drop 8 h)"
    using packed by (simp add: make_nsh_decr_si_def then_do_def nt new nt'_def)
  have "wf_NshHeader nt'"
    using wf_NshHeader_unpack [OF nt] ok by (simp add: wf_NshHeader_def nt'_def)
  then have unpacked: "StructNshHeader (take 7 h @ [h ! 7 - 1] @ drop 8 h) = Inr nt'"
    using unpack_pack_NshHeader [of nt'] packed by (simp add: then_do_def)
  have si': "get_nsh_si nt' = get_nsh_si nt - 1"
    using nz by (simp add: get_nsh_si_mod nt'_def mod256_pred flip: sph_def)
  have spi': "get_nsh_spi nt' = get_nsh_spi nt"
    using get_nsh_spi_div [of nt'] get_nsh_spi_div [of nt] r r' nz
    by (simp add: nt'_def div256_pred flip: sph_def)
  have l': "length (take 7 h @ [h ! 7 - 1] @ drop 8 h) = 24" by (simp add: len)
  show ?thesis
    using run unpacked si' spi' l' by (simp add: nt'_def sph_def)
qed

text \<open>
  C6: for every 24-byte NSH MD-Type 1 header whose Service Index is at least 1,
  \<open>make_nsh_decr_si\<close> returns a 24-byte header that differs from the input in its last
  service-path byte only, which is one less: the Service Index is one less, and the SPI,
  the flags and length, the MD type, the next protocol and the four context words are
  those of the input.
\<close>

theorem make_nsh_decr_si_decrements:
  assumes len: "length h = 24"
      and nt: "StructNshHeader h = Inr nt"
      and si: "1 \<le> get_nsh_si nt"
  shows "\<exists>h' nt'. make_nsh_decr_si h = Inr h' \<and> length h' = 24
           \<and> h' = take 7 h @ [h ! 7 - 1] @ drop 8 h
           \<and> StructNshHeader h' = Inr nt'
           \<and> nt' = nt\<lparr>nsh_sph := nsh_sph nt - 1\<rparr>
           \<and> get_nsh_si nt' = get_nsh_si nt - 1
           \<and> get_nsh_spi nt' = get_nsh_spi nt
           \<and> nsh_flags_length nt' = nsh_flags_length nt
           \<and> nsh_md_type nt' = nsh_md_type nt \<and> nsh_np nt' = nsh_np nt
           \<and> nsh_ctx1 nt' = nsh_ctx1 nt \<and> nsh_ctx2 nt' = nsh_ctx2 nt
           \<and> nsh_ctx3 nt' = nsh_ctx3 nt \<and> nsh_ctx4 nt' = nsh_ctx4 nt"
  using assms by (rule make_nsh_decr_si_result)

theorem make_nsh_decr_si_decrements_witness:
  "length ex_nsh = 24 \<and> StructNshHeader ex_nsh = Inr ex_nsh_nt \<and> 1 \<le> get_nsh_si ex_nsh_nt
   \<and> get_nsh_si ex_nsh_nt = 5 \<and> get_nsh_spi ex_nsh_nt = 100
   \<and> make_nsh_decr_si ex_nsh =
       Inr [0x00, 0x06, 0x01, 0x03, 0x00, 0x00, 0x64, 0x04, 0x00, 0x00, 0x00, 0x00, 0x00, 0x00,
            0x00, 0x00, 0x00, 0x00, 0x00, 0x00, 0x00, 0x00, 0x00, 0x00]"
proof -
  have a: "length ex_nsh = 24" by (simp add: ex_nsh_def)
  have b: "StructNshHeader ex_nsh = Inr ex_nsh_nt"
    by (simp add: ex_nsh_def ex_nsh_nt_def StructNshHeader_def unpack_uint_def slice_def
        from_bytes_big_def)
  have c: "get_nsh_si ex_nsh_nt = 5" "get_nsh_spi ex_nsh_nt = 100"
    by (simp_all add: get_nsh_si_def get_nsh_spi_def ex_nsh_nt_def)
  then have d: "1 \<le> get_nsh_si ex_nsh_nt" by simp
  from make_nsh_decr_si_decrements [OF a b d]
  have "make_nsh_decr_si ex_nsh = Inr (take 7 ex_nsh @ [ex_nsh ! 7 - 1] @ drop 8 ex_nsh)"
    by auto
  then have "make_nsh_decr_si ex_nsh =
       Inr [0x00, 0x06, 0x01, 0x03, 0x00, 0x00, 0x64, 0x04, 0x00, 0x00, 0x00, 0x00, 0x00, 0x00,
            0x00, 0x00, 0x00, 0x00, 0x00, 0x00, 0x00, 0x00, 0x00, 0x00]"
    by (simp add: ex_nsh_def)
  with a b c d show ?thesis by simp
qed

section \<open>The write-until-drained loop\<close>

lemma send_all_Nil: "send_all send s [] w = Some w"
  by (subst send_all.simps) simp

lemma send_all_step:
  "pkt \<noteq> [] \<Longrightarrow>
   send_all send s pkt w =
     send_all send s (drop (fst (send s pkt (net w))) pkt)
       (w\<lparr>net := snd (send s pkt (net w)),
          sent_log := sent_log w @ [(s, take (fst (send s pkt (net w))) pkt)]\<rparr>)"
  by (subst send_all.simps) simp

lemma send_all_total:
  assumes "send_progress send"
  shows "\<exists>w' chunks. send_all send s pkt w = Some w'
           \<and> sent_log w' = sent_log w @ map (Pair s) chunks
           \<and> concat chunks = pkt \<and> [] \<notin> set chunks
           \<and> sessions w' = sessions w \<and> sessions_reply_info w' = sessions_reply_info w"
proof (induction "length pkt" arbitrary: pkt w rule: less_induct)
  case less
  show ?case
  proof (cases "pkt = []")
    case True
    have "send_all send s pkt w = Some w \<and> sent_log w = sent_log w @ map (Pair s) []
          \<and> concat [] = pkt \<and> [] \<notin> set ([] :: bytes list)"
      by (simp add: True send_all_Nil)
    then show ?thesis by blast
  next
    case False
    define k where "k = fst (send s pkt (net w))"
    define w1 where "w1 = w\<lparr>net := snd (send s pkt (net w)),
                             sent_log := sent_log w @ [(s, take k pkt)]\<rparr>"
    from assms False have k: "1 \<le> k" "k \<le> length pkt"
      by (simp_all add: send_progress_def k_def)
    with False have "length (drop k pkt) < length pkt" by simp
    from less [OF this, of w1] obtain w' chunks where
      r: "send_all send s (drop k pkt) w1 = Some w'"
        "sent_log w' = sent_log w1 @ map (Pair s) chunks"
        "concat chunks = drop k pkt" "[] \<notin> set chunks"
        "sessions w' = sessions w1" "sessions_reply_info w' = sessions_reply_info w1"
      by blast
    have "send_all send s pkt w = Some w'"
      using r(1) send_all_step [OF False, of send s w] by (simp add: k_def w1_def)
    moreover have "sent_log w' = sent_log w @ map (Pair s) (take k pkt # chunks)"
      using r(2) by (simp add: w1_def)
    moreover have "concat (take k pkt # chunks) = pkt" using r(3) by simp
    moreover have "[] \<notin> set (take k pkt # chunks)" using r(4) k False by auto
    moreover have "sessions w' = sessions w" "sessions_reply_info w' = sessions_reply_info w"
      using r(5,6) by (simp_all add: w1_def)
    ultimately show ?thesis by blast
  qed
qed

lemma length_pos_ge1: "buf \<noteq> [] \<Longrightarrow> 1 \<le> length buf"
  by (cases buf) simp_all

lemma send_progress_half: "send_progress send_half"
proof -
  have "1 \<le> (length buf + 1) div 2 \<and> (length buf + 1) div 2 \<le> length buf"
    if "buf \<noteq> []" for buf :: bytes
    using length_pos_ge1 [OF that] by arith
  then show ?thesis by (simp add: send_progress_def send_half_def)
qed

lemma send_progress_whole: "send_progress send_whole"
proof -
  have "1 \<le> length buf" if "buf \<noteq> []" for buf :: bytes
    using length_pos_ge1 [OF that] .
  then show ?thesis by (simp add: send_progress_def send_whole_def)
qed

lemma send_all_half_example: "send_all send_half sckt_encap [1, 2, 3, 4, 5] world0 =
   Some (world0\<lparr>net := 3,
           sent_log := [(sckt_encap, [1, 2, 3]), (sckt_encap, [4]), (sckt_encap, [5])]\<rparr>)"
  by (simp add: send_all_step send_all_Nil send_half_def world0_def)

text \<open>
  C10: on a socket whose every send takes at least one byte and at most the bytes that
  remain, the write-until-drained loop ends, and the chunks that its sends took, in order,
  concatenate to the frame: every byte goes out once, in order. No chunk is empty, all go
  to the one socket, and the session tables are not touched. (The empty frame, for which
  the loop makes no send, is covered too.)
\<close>

theorem write_until_drained:
  assumes "send_progress send"
  shows "\<exists>w' chunks. send_all send s frame w = Some w'
           \<and> sent_log w' = sent_log w @ map (Pair s) chunks
           \<and> concat chunks = frame \<and> [] \<notin> set chunks
           \<and> sessions w' = sessions w \<and> sessions_reply_info w' = sessions_reply_info w"
  using assms by (rule send_all_total)

theorem write_until_drained_witness:
  "send_progress send_half
   \<and> send_all send_half sckt_encap [1, 2, 3, 4, 5] world0 =
       Some (world0\<lparr>net := 3,
               sent_log := [(sckt_encap, [1, 2, 3]), (sckt_encap, [4]), (sckt_encap, [5])]\<rparr>)
   \<and> (\<exists>w' chunks. send_all send_half sckt_encap [1, 2, 3, 4, 5] world0 = Some w'
           \<and> sent_log w' = sent_log world0 @ map (Pair sckt_encap) chunks
           \<and> concat chunks = [1, 2, 3, 4, 5] \<and> [] \<notin> set chunks
           \<and> sessions w' = sessions world0
           \<and> sessions_reply_info w' = sessions_reply_info world0)"
  using write_until_drained [OF send_progress_half, of sckt_encap "[1, 2, 3, 4, 5]" world0]
    send_progress_half send_all_half_example
  by blast

section \<open>The parsers and the layout of frames\<close>

lemma parse_ip_ok:
  assumes "20 \<le> length packet" "uint (packet ! 0) AND 0x0F = 5"
  shows "parse_ip packet = Inr (take 20 packet, drop 20 packet)"
proof (cases packet)
  case Nil
  with assms show ?thesis by simp
next
  case (Cons b r)
  with assms(2) have "uint b AND 0x0F = 5" by simp
  then show ?thesis by (simp add: parse_ip_def Cons slice_def)
qed

lemma StructEthHeader_ok:
  "length buf = 14 \<Longrightarrow>
   \<exists>nt. StructEthHeader buf = Inr nt \<and> eth_dst nt = slice 0 6 buf \<and> eth_src nt = slice 6 12 buf
        \<and> eth_type nt = from_bytes_big (slice 12 14 buf)"
  by (simp add: StructEthHeader_def unpack_s_def unpack_uint_def)

lemma StructIpHeader_ok:
  "length buf = 20 \<Longrightarrow>
   \<exists>nt. StructIpHeader buf = Inr nt \<and> ip_protocol nt = from_bytes_big (slice 9 10 buf)
        \<and> ip_src nt = slice 12 16 buf \<and> ip_dst nt = slice 16 20 buf"
  by (simp add: StructIpHeader_def unpack_s_def unpack_uint_def)

lemma StructUdpHeader_ok:
  "length buf = 8 \<Longrightarrow>
   \<exists>nt. StructUdpHeader buf = Inr nt \<and> udp_dst_port nt = from_bytes_big (slice 2 4 buf)"
  by (simp add: StructUdpHeader_def unpack_uint_def)

lemma StructTcpHeaderWithoutOptions_ok:
  "length buf = 20 \<Longrightarrow>
   \<exists>nt. StructTcpHeaderWithoutOptions buf = Inr nt
        \<and> tcp_src_port nt = from_bytes_big (slice 0 2 buf)
        \<and> tcp_dst_port nt = from_bytes_big (slice 2 4 buf)"
  by (simp add: StructTcpHeaderWithoutOptions_def unpack_uint_def)

lemma parse_tcp_ok:
  assumes "20 \<le> length packet"
  shows "\<exists>opts payload. parse_tcp packet = Inr (take 20 packet, opts, payload)"
  using assms by (simp add: parse_tcp_def then_do_def StructTcpHeaderWithoutOptions_def slice_def Let_def)

lemma parse_bare_ok:
  assumes "parses_bare frame"
  shows "\<exists>t. parse_bare frame = Inr (Some t) \<and> key_of t = frame_key frame
             \<and> swapped_key_of t = swap_key (frame_key frame)"
proof -
  from assms have len: "54 \<le> length frame"
    and ty: "from_bytes_big (slice 12 14 frame) = 0x0800"
    and ihl: "uint (frame ! 14) AND 0x0F = 5"
    and pr: "from_bytes_big (slice 23 24 frame) = 6"
    by (simp_all add: parses_bare_def)
  from len obtain e where e: "StructEthHeader (take 14 frame) = Inr e"
    "eth_dst e = slice 0 6 (take 14 frame)" "eth_src e = slice 6 12 (take 14 frame)"
    "eth_type e = from_bytes_big (slice 12 14 (take 14 frame))"
    using StructEthHeader_ok [of "take 14 frame"] by auto
  have ip: "parse_ip (drop 14 frame) = Inr (take 20 (drop 14 frame), drop 20 (drop 14 frame))"
    using len ihl by (intro parse_ip_ok) simp_all
  from len obtain i where i: "StructIpHeader (take 20 (drop 14 frame)) = Inr i"
    "ip_protocol i = from_bytes_big (slice 9 10 (take 20 (drop 14 frame)))"
    "ip_src i = slice 12 16 (take 20 (drop 14 frame))"
    "ip_dst i = slice 16 20 (take 20 (drop 14 frame))"
    using StructIpHeader_ok [of "take 20 (drop 14 frame)"] by auto
  have "20 \<le> length (drop 34 frame)" using len by simp
  then obtain opts payload where
    tp: "parse_tcp (drop 34 frame) = Inr (take 20 (drop 34 frame), opts, payload)"
    using parse_tcp_ok [of "drop 34 frame"] by blast
  from len obtain t where t: "StructTcpHeaderWithoutOptions (take 20 (drop 34 frame)) = Inr t"
    "tcp_src_port t = from_bytes_big (slice 0 2 (take 20 (drop 34 frame)))"
    "tcp_dst_port t = from_bytes_big (slice 2 4 (take 20 (drop 34 frame)))"
    using StructTcpHeaderWithoutOptions_ok [of "take 20 (drop 34 frame)"] by auto
  have ty': "eth_type e = 0x0800" using ty by (simp add: e(4) slice_def drop_take)
  have pr': "ip_protocol i = 6" using pr by (simp add: i(2) slice_def drop_take)
  have "parse_bare frame = Inr (Some (e, i, t))"
    by (simp add: parse_bare_def parse_ethernet_def slice_0 then_do_def e(1) ty' ip i(1) pr' tp t(1))
  moreover have "key_of (e, i, t) = frame_key frame"
    by (simp add: key_of_def frame_key_def e i t slice_def drop_take)
  moreover have "swapped_key_of (e, i, t) = swap_key (frame_key frame)"
    by (simp add: swapped_key_of_def swap_key_def frame_key_def e i t slice_def drop_take)
  ultimately show ?thesis by blast
qed


lemma then_do_Inr: "then_do m f = Inr y \<Longrightarrow> \<exists>x. m = Inr x \<and> f x = Inr y"
  by (cases m) (simp_all add: then_do_def)

lemma StructEthHeader_length: "StructEthHeader buf = Inr nt \<Longrightarrow> length buf = 14"
  by (simp add: StructEthHeader_def split: if_splits)

lemma StructIpHeader_length: "StructIpHeader buf = Inr nt \<Longrightarrow> length buf = 20"
  by (simp add: StructIpHeader_def split: if_splits)

lemma StructUdpHeader_length: "StructUdpHeader buf = Inr nt \<Longrightarrow> length buf = 8"
  by (simp add: StructUdpHeader_def split: if_splits)

lemma StructVxLanGPEHeader_length: "StructVxLanGPEHeader buf = Inr nt \<Longrightarrow> length buf = 8"
  by (simp add: StructVxLanGPEHeader_def split: if_splits)

lemma StructNshHeader_length: "StructNshHeader buf = Inr nt \<Longrightarrow> length buf = 24"
  by (simp add: StructNshHeader_def split: if_splits)

lemma StructTcpHeaderWithoutOptions_length:
  "StructTcpHeaderWithoutOptions buf = Inr nt \<Longrightarrow> length buf = 20"
  by (simp add: StructTcpHeaderWithoutOptions_def split: if_splits)

lemma parse_tcp_Inr:
  assumes "parse_tcp packet = Inr (h, opts, payload)"
  shows "20 \<le> length packet \<and> h = take 20 packet"
proof -
  from assms obtain nt where nt: "StructTcpHeaderWithoutOptions (slice 0 20 packet) = Inr nt"
    and h: "h = slice 0 20 packet"
    by (auto simp: parse_tcp_def Let_def then_do_def split: sum.splits)
  from StructTcpHeaderWithoutOptions_length [OF nt] have "length (take 20 packet) = 20"
    by (simp add: slice_0)
  then show ?thesis using h by (simp add: slice_0)
qed

text \<open>A 20-byte IPv4 header followed by at least 20 more bytes: the length nibble is 5.\<close>

lemma parse_ip_Inr:
  assumes "parse_ip packet = Inr (h, payload)" "length h = 20" "20 \<le> length payload"
  shows "40 \<le> length packet \<and> uint (packet ! 0) AND 0x0F = 5
         \<and> h = take 20 packet \<and> payload = drop 20 packet"
proof (cases packet)
  case Nil
  with assms(1) show ?thesis by (simp add: parse_ip_def)
next
  case (Cons b r)
  define n where "n = nat ((uint b AND 0x0F) * 4)"
  from assms(1) have h: "h = take n packet" and p: "payload = drop n packet"
    by (simp_all add: parse_ip_def Cons n_def slice_def Let_def)
  from assms(3) p have "n + 20 \<le> length packet" by simp
  with assms(2) h have n20: "n = 20" by simp
  have "0 \<le> uint b AND 0x0F" by simp
  with n20 have "(uint b AND 0x0F) * 4 = 20" unfolding n_def by linarith
  then have "uint b AND 0x0F = 5" by simp
  with n20 h p assms(3) show ?thesis by (simp add: Cons)
qed

lemma parse_bare_SomeD:
  "parse_bare frame = Inr (Some t) \<Longrightarrow>
   \<exists>e h p i th opts payload tn.
      StructEthHeader (take 14 frame) = Inr e \<and> eth_type e = 0x0800
      \<and> parse_ip (drop 14 frame) = Inr (h, p) \<and> StructIpHeader h = Inr i \<and> ip_protocol i = 6
      \<and> parse_tcp p = Inr (th, opts, payload) \<and> StructTcpHeaderWithoutOptions th = Inr tn
      \<and> t = (e, i, tn)"
  by (auto simp: parse_bare_def parse_ethernet_def slice_0 then_do_def
      split: sum.splits if_splits prod.splits)

lemma parse_bare_Some:
  assumes "parse_bare frame = Inr (Some t)"
  shows "parses_bare frame"
proof -
  from parse_bare_SomeD [OF assms] obtain e h p i th opts payload where
    e: "StructEthHeader (take 14 frame) = Inr e" and ty: "eth_type e = 0x0800"
    and ip: "parse_ip (drop 14 frame) = Inr (h, p)" and i: "StructIpHeader h = Inr i"
    and pr: "ip_protocol i = 6" and tp: "parse_tcp p = Inr (th, opts, payload)"
    by blast
  have l14: "14 \<le> length frame" using StructEthHeader_length [OF e] by simp
  have lh: "length h = 20" using StructIpHeader_length [OF i] .
  have lp: "20 \<le> length p" using parse_tcp_Inr [OF tp] by simp
  from parse_ip_Inr [OF ip lh lp] have l40: "40 \<le> length (drop 14 frame)"
    and ihl: "uint (drop 14 frame ! 0) AND 0x0F = 5" and h: "h = take 20 (drop 14 frame)"
    by simp_all
  have len: "54 \<le> length frame" using l40 by simp
  have "eth_type e = from_bytes_big (slice 12 14 frame)"
    using e by (auto simp: StructEthHeader_def unpack_uint_def slice_def drop_take split: if_splits)
  moreover have "ip_protocol i = from_bytes_big (slice 23 24 frame)"
    using i by (auto simp: StructIpHeader_def unpack_uint_def slice_def drop_take h split: if_splits)
  moreover have "drop 14 frame ! 0 = frame ! 14" using len by simp
  ultimately show ?thesis using ty pr ihl len by (simp add: parses_bare_def)
qed

lemma parse_bare_iff: "parses_bare frame \<longleftrightarrow> (\<exists>t. parse_bare frame = Inr (Some t))"
  using parse_bare_ok parse_bare_Some by blast


lemma StructVxLanGPEHeader_ok: "length buf = 8 \<Longrightarrow> \<exists>nt. StructVxLanGPEHeader buf = Inr nt"
  by (simp add: StructVxLanGPEHeader_def)

lemma StructNshHeader_ok: "length buf = 24 \<Longrightarrow> \<exists>nt. StructNshHeader buf = Inr nt"
  by (simp add: StructNshHeader_def)

lemma parse_stack_ok:
  assumes "parses_fully frame"
  shows "\<exists>p. parse_stack frame = Inr (Some p)
           \<and> (outer_eth_header p, ip_header p, udp_header p, vxlan_header p, eth_nsh_header p,
               nsh_header p) = frame_bundle frame
           \<and> nsh_payload p = inner_frame frame
           \<and> key_of (inner_eth_header_nt p, inner_ip_header_nt p, inner_tcp_header_nt p)
               = frame_key (inner_frame frame)"
proof -
  from assms have len: "142 \<le> length frame"
    and ty: "from_bytes_big (slice 12 14 frame) = 0x0800"
    and ihl: "uint (frame ! 14) AND 0x0F = 5"
    and pr: "from_bytes_big (slice 23 24 frame) = 17"
    and port: "from_bytes_big (slice 36 38 frame) = 4790"
    and ihl2: "uint (frame ! 102) AND 0x0F = 5"
    by (simp_all add: parses_fully_def)
  from len obtain e where e: "StructEthHeader (take 14 frame) = Inr e"
    "eth_type e = from_bytes_big (slice 12 14 (take 14 frame))"
    using StructEthHeader_ok [of "take 14 frame"] by auto
  have ip: "parse_ip (drop 14 frame) = Inr (take 20 (drop 14 frame), drop 20 (drop 14 frame))"
    using len ihl by (intro parse_ip_ok) simp_all
  from len obtain i where i: "StructIpHeader (take 20 (drop 14 frame)) = Inr i"
    "ip_protocol i = from_bytes_big (slice 9 10 (take 20 (drop 14 frame)))"
    using StructIpHeader_ok [of "take 20 (drop 14 frame)"] by auto
  from len obtain u where u: "StructUdpHeader (take 8 (drop 34 frame)) = Inr u"
    "udp_dst_port u = from_bytes_big (slice 2 4 (take 8 (drop 34 frame)))"
    using StructUdpHeader_ok [of "take 8 (drop 34 frame)"] by auto
  from len obtain v where v: "StructVxLanGPEHeader (take 8 (drop 42 frame)) = Inr v"
    using StructVxLanGPEHeader_ok [of "take 8 (drop 42 frame)"] by auto
  from len obtain en where en: "StructEthHeader (take 14 (drop 50 frame)) = Inr en"
    using StructEthHeader_ok [of "take 14 (drop 50 frame)"] by auto
  from len obtain n where n: "StructNshHeader (take 24 (drop 64 frame)) = Inr n"
    using StructNshHeader_ok [of "take 24 (drop 64 frame)"] by auto
  from len obtain ie where ie: "StructEthHeader (take 14 (drop 88 frame)) = Inr ie"
    "eth_dst ie = slice 0 6 (take 14 (drop 88 frame))"
    "eth_src ie = slice 6 12 (take 14 (drop 88 frame))"
    "eth_type ie = from_bytes_big (slice 12 14 (take 14 (drop 88 frame)))"
    using StructEthHeader_ok [of "take 14 (drop 88 frame)"] by auto
  have "drop 102 frame ! 0 = frame ! 102" using len by simp
  then have iip: "parse_ip (drop 102 frame)
      = Inr (take 20 (drop 102 frame), drop 20 (drop 102 frame))"
    using len ihl2 by (intro parse_ip_ok) simp_all
  from len obtain ii where ii: "StructIpHeader (take 20 (drop 102 frame)) = Inr ii"
    "ip_src ii = slice 12 16 (take 20 (drop 102 frame))"
    "ip_dst ii = slice 16 20 (take 20 (drop 102 frame))"
    using StructIpHeader_ok [of "take 20 (drop 102 frame)"] by auto
  have "20 \<le> length (drop 122 frame)" using len by simp
  then obtain opts payload where
    tp: "parse_tcp (drop 122 frame) = Inr (take 20 (drop 122 frame), opts, payload)"
    using parse_tcp_ok [of "drop 122 frame"] by blast
  from len obtain t where t: "StructTcpHeaderWithoutOptions (take 20 (drop 122 frame)) = Inr t"
    "tcp_src_port t = from_bytes_big (slice 0 2 (take 20 (drop 122 frame)))"
    "tcp_dst_port t = from_bytes_big (slice 2 4 (take 20 (drop 122 frame)))"
    using StructTcpHeaderWithoutOptions_ok [of "take 20 (drop 122 frame)"] by auto
  have ty': "eth_type e = 0x0800" using ty by (simp add: e(2) slice_def drop_take)
  have pr': "ip_protocol i = 17" using pr by (simp add: i(2) slice_def drop_take)
  have port': "udp_dst_port u = 4790" using port by (simp add: u(2) slice_def drop_take)
  define p where "p = \<lparr>outer_eth_header = take 14 frame, ip_header = take 20 (drop 14 frame),
      udp_header = take 8 (drop 34 frame), vxlan_header = take 8 (drop 42 frame),
      eth_nsh_header = take 14 (drop 50 frame), nsh_header = take 24 (drop 64 frame),
      nsh_payload = drop 88 frame, inner_eth_header_nt = ie, inner_ip_header_nt = ii,
      inner_tcp_header_nt = t\<rparr>"
  have "parse_stack frame = Inr (Some p)"
    by (simp add: parse_stack_def parse_ethernet_def parse_udp_def parse_vxlan_gpe_def
        parse_nsh_def slice_0 then_do_def e(1) ty' ip i(1) pr' u(1) port' v en n ie(1) iip ii(1)
        tp t(1) p_def)
  moreover have "(outer_eth_header p, ip_header p, udp_header p, vxlan_header p,
      eth_nsh_header p, nsh_header p) = frame_bundle frame"
    by (simp add: p_def frame_bundle_def slice_def)
  moreover have "nsh_payload p = inner_frame frame"
    by (simp add: p_def inner_frame_def)
  moreover have "key_of (inner_eth_header_nt p, inner_ip_header_nt p, inner_tcp_header_nt p)
      = frame_key (inner_frame frame)"
    by (simp add: p_def key_of_def frame_key_def inner_frame_def ie ii t slice_def drop_take)
  ultimately show ?thesis by blast
qed

lemma parse_stack_SomeD:
  "parse_stack frame = Inr (Some p) \<Longrightarrow>
   \<exists>e h1 p1 i u v en n ie h2 p2 ii th opts payload.
      StructEthHeader (take 14 frame) = Inr e \<and> eth_type e = 0x0800
      \<and> parse_ip (drop 14 frame) = Inr (h1, p1) \<and> StructIpHeader h1 = Inr i
      \<and> ip_protocol i = 17
      \<and> StructUdpHeader (take 8 p1) = Inr u \<and> udp_dst_port u = 4790
      \<and> StructVxLanGPEHeader (take 8 (drop 8 p1)) = Inr v
      \<and> StructEthHeader (take 14 (drop 16 p1)) = Inr en
      \<and> StructNshHeader (take 24 (drop 30 p1)) = Inr n
      \<and> StructEthHeader (take 14 (drop 54 p1)) = Inr ie
      \<and> parse_ip (drop 68 p1) = Inr (h2, p2) \<and> StructIpHeader h2 = Inr ii
      \<and> parse_tcp p2 = Inr (th, opts, payload)"
  by (auto simp: parse_stack_def parse_ethernet_def parse_udp_def parse_vxlan_gpe_def
      parse_nsh_def slice_0 then_do_def split: sum.splits if_splits prod.splits)


lemma parse_stack_Some:
  assumes "parse_stack frame = Inr (Some p)"
  shows "parses_fully frame"
proof -
  from parse_stack_SomeD [OF assms] obtain e h1 p1 i u ie h2 p2 ii th opts payload where
    e: "StructEthHeader (take 14 frame) = Inr e" and ty: "eth_type e = 0x0800"
    and ip: "parse_ip (drop 14 frame) = Inr (h1, p1)" and i: "StructIpHeader h1 = Inr i"
    and pr: "ip_protocol i = 17"
    and u: "StructUdpHeader (take 8 p1) = Inr u" and port: "udp_dst_port u = 4790"
    and ie: "StructEthHeader (take 14 (drop 54 p1)) = Inr ie"
    and iip: "parse_ip (drop 68 p1) = Inr (h2, p2)" and ii: "StructIpHeader h2 = Inr ii"
    and tp: "parse_tcp p2 = Inr (th, opts, payload)"
    by blast
  have lh1: "length h1 = 20" using StructIpHeader_length [OF i] .
  have "length (take 14 (drop 54 p1)) = 14" using StructEthHeader_length [OF ie] .
  then have lp1: "20 \<le> length p1" by simp
  from parse_ip_Inr [OF ip lh1 lp1] have ihl: "uint (drop 14 frame ! 0) AND 0x0F = 5"
    and h1: "h1 = take 20 (drop 14 frame)" and p1: "p1 = drop 20 (drop 14 frame)"
    and l40: "40 \<le> length (drop 14 frame)"
    by simp_all
  have lh2: "length h2 = 20" using StructIpHeader_length [OF ii] .
  have lp2: "20 \<le> length p2" using parse_tcp_Inr [OF tp] by simp
  from parse_ip_Inr [OF iip lh2 lp2] have ihl2: "uint (drop 68 p1 ! 0) AND 0x0F = 5"
    and l2: "40 \<le> length (drop 68 p1)"
    by simp_all
  have len: "142 \<le> length frame" using l2 by (simp add: p1)
  have "eth_type e = from_bytes_big (slice 12 14 frame)"
    using e by (auto simp: StructEthHeader_def unpack_uint_def slice_def drop_take split: if_splits)
  moreover have "ip_protocol i = from_bytes_big (slice 23 24 frame)"
    using i by (auto simp: StructIpHeader_def unpack_uint_def slice_def drop_take h1 split: if_splits)
  moreover have "udp_dst_port u = from_bytes_big (slice 36 38 frame)"
    using u by (auto simp: StructUdpHeader_def unpack_uint_def slice_def drop_take p1 split: if_splits)
  moreover have "drop 14 frame ! 0 = frame ! 14" using len by simp
  moreover have "drop 68 p1 ! 0 = frame ! 102" using len by (simp add: p1)
  ultimately show ?thesis using ty pr port ihl ihl2 len by (simp add: parses_fully_def)
qed

lemma parse_stack_iff: "parses_fully frame \<longleftrightarrow> (\<exists>p. parse_stack frame = Inr (Some p))"
  using parse_stack_ok parse_stack_Some by blast

section \<open>The de-encapsulation pipeline\<close>

lemma deencapsulate_parsed:
  assumes "parses_fully frame"
  shows "parse_frame_and_deencapsulate send frame sck w =
     (if sessions w (swap_key (frame_key (inner_frame frame))) \<noteq> None
      then map_option Returned
             (send_all send sckt_unencap_in (inner_frame frame)
                (w\<lparr>sessions_reply_info := (sessions_reply_info w)
                      (swap_key (frame_key (inner_frame frame)) \<mapsto> frame_bundle frame)\<rparr>))
      else map_option Returned
             (send_all send sck (inner_frame frame)
                (w\<lparr>sessions := (sessions w)
                      (frame_key (inner_frame frame) \<mapsto> frame_bundle frame)\<rparr>)))"
proof -
  from parse_stack_ok [OF assms] obtain p where p: "parse_stack frame = Inr (Some p)"
    and b: "(outer_eth_header p, ip_header p, udp_header p, vxlan_header p, eth_nsh_header p,
               nsh_header p) = frame_bundle frame"
    and pl: "nsh_payload p = inner_frame frame"
    and k: "key_of (inner_eth_header_nt p, inner_ip_header_nt p, inner_tcp_header_nt p)
               = frame_key (inner_frame frame)"
    by blast
  from k have k': "(eth_dst (inner_eth_header_nt p), eth_src (inner_eth_header_nt p),
      eth_type (inner_eth_header_nt p), ip_dst (inner_ip_header_nt p),
      ip_src (inner_ip_header_nt p), tcp_dst_port (inner_tcp_header_nt p),
      tcp_src_port (inner_tcp_header_nt p)) = frame_key (inner_frame frame)"
    by (simp add: key_of_def)
  have sk: "(eth_src (inner_eth_header_nt p), eth_dst (inner_eth_header_nt p),
      eth_type (inner_eth_header_nt p), ip_src (inner_ip_header_nt p),
      ip_dst (inner_ip_header_nt p), tcp_src_port (inner_tcp_header_nt p),
      tcp_dst_port (inner_tcp_header_nt p)) = swap_key (frame_key (inner_frame frame))"
    by (simp add: swap_key_def flip: k')
  show ?thesis
    by (simp add: parse_frame_and_deencapsulate_def p Let_def k' sk b pl)
qed


text \<open>
  C1: for every frame received on the encap interface that parses fully, with inner key
  \<open>k = frame_key (inner_frame frame)\<close> and bundle \<open>B = frame_bundle frame\<close> (the six
  slices, verbatim), on a socket that makes progress: if \<open>swap_key k\<close> is a key of the
  forward table, then afterwards the reply table maps \<open>swap_key k\<close> to \<open>B\<close>, the forward
  table is unchanged and the inner frame has gone out on unencap-in; otherwise the forward
  table maps \<open>k\<close> to \<open>B\<close> (over any earlier entry), the reply table is unchanged and the
  inner frame has gone out on unencap-out. By \<open>parse_stack_iff\<close> the frames that parse
  fully are those on which the descent of the program succeeds.
\<close>

theorem deencapsulate_records_and_emits:
  assumes "parses_fully frame" and "send_progress send"
  shows "\<exists>w' chunks.
           parse_frame_and_deencapsulate send frame sckt_unencap_out w = Some (Returned w')
           \<and> concat chunks = inner_frame frame
           \<and> (if swap_key (frame_key (inner_frame frame)) \<in> dom (sessions w)
              then sessions_reply_info w' = (sessions_reply_info w)
                     (swap_key (frame_key (inner_frame frame)) \<mapsto> frame_bundle frame)
                   \<and> sessions w' = sessions w
                   \<and> sent_log w' = sent_log w @ map (Pair sckt_unencap_in) chunks
              else sessions w' = (sessions w)
                     (frame_key (inner_frame frame) \<mapsto> frame_bundle frame)
                   \<and> sessions_reply_info w' = sessions_reply_info w
                   \<and> sent_log w' = sent_log w @ map (Pair sckt_unencap_out) chunks)"
proof (cases "sessions w (swap_key (frame_key (inner_frame frame))) = None")
  case True
  define w1 where "w1 = w\<lparr>sessions := (sessions w)
                      (frame_key (inner_frame frame) \<mapsto> frame_bundle frame)\<rparr>"
  from send_all_total [OF assms(2), of sckt_unencap_out "inner_frame frame" w1]
  obtain w' chunks where
    r: "send_all send sckt_unencap_out (inner_frame frame) w1 = Some w'"
      "sent_log w' = sent_log w1 @ map (Pair sckt_unencap_out) chunks"
      "concat chunks = inner_frame frame"
      "sessions w' = sessions w1" "sessions_reply_info w' = sessions_reply_info w1"
    by blast
  have "parse_frame_and_deencapsulate send frame sckt_unencap_out w = Some (Returned w')"
    using r(1) True by (simp add: deencapsulate_parsed [OF assms(1)] w1_def)
  moreover have "swap_key (frame_key (inner_frame frame)) \<notin> dom (sessions w)"
    using True by (simp add: domIff)
  ultimately show ?thesis using r(2-5) by (auto simp: w1_def)
next
  case False
  define w1 where "w1 = w\<lparr>sessions_reply_info := (sessions_reply_info w)
                      (swap_key (frame_key (inner_frame frame)) \<mapsto> frame_bundle frame)\<rparr>"
  from send_all_total [OF assms(2), of sckt_unencap_in "inner_frame frame" w1]
  obtain w' chunks where
    r: "send_all send sckt_unencap_in (inner_frame frame) w1 = Some w'"
      "sent_log w' = sent_log w1 @ map (Pair sckt_unencap_in) chunks"
      "concat chunks = inner_frame frame"
      "sessions w' = sessions w1" "sessions_reply_info w' = sessions_reply_info w1"
    by blast
  have "parse_frame_and_deencapsulate send frame sckt_unencap_out w = Some (Returned w')"
    using r(1) False by (simp add: deencapsulate_parsed [OF assms(1)] w1_def)
  moreover have "swap_key (frame_key (inner_frame frame)) \<in> dom (sessions w)"
    using False by (simp add: domIff)
  ultimately show ?thesis using r(2-5) by (auto simp: w1_def)
qed

lemma parse_stack_not_fully:
  assumes "\<not> parses_fully frame"
  shows "parse_stack frame = Inr None \<or> (\<exists>e. parse_stack frame = Inl e)"
proof (cases "parse_stack frame")
  case (Inl e)
  then show ?thesis by simp
next
  case (Inr r)
  with assms parse_stack_Some [of frame] show ?thesis by (cases r) auto
qed

lemma parse_stack_turned_away:
  assumes "turned_away frame"
  shows "parse_stack frame = Inr None"
proof -
  from assms have len: "14 \<le> length frame" by (simp add: turned_away_def)
  from len obtain e where e: "StructEthHeader (take 14 frame) = Inr e"
    "eth_type e = from_bytes_big (slice 12 14 (take 14 frame))"
    using StructEthHeader_ok [of "take 14 frame"] by auto
  have ty: "eth_type e = from_bytes_big (slice 12 14 frame)"
    by (simp add: e(2) slice_def drop_take)
  show ?thesis
  proof (cases "from_bytes_big (slice 12 14 frame) = 0x0800")
    case False
    then show ?thesis
      by (simp add: parse_stack_def parse_ethernet_def slice_0 then_do_def e(1) ty)
  next
    case True
    with assms have l34: "34 \<le> length frame" and ihl: "uint (frame ! 14) AND 0x0F = 5"
      and rest: "from_bytes_big (slice 23 24 frame) \<noteq> 17
              \<or> (42 \<le> length frame \<and> from_bytes_big (slice 36 38 frame) \<noteq> 4790)"
      by (simp_all add: turned_away_def)
    have ip: "parse_ip (drop 14 frame) = Inr (take 20 (drop 14 frame), drop 20 (drop 14 frame))"
      using l34 ihl by (intro parse_ip_ok) simp_all
    from l34 obtain i where i: "StructIpHeader (take 20 (drop 14 frame)) = Inr i"
      "ip_protocol i = from_bytes_big (slice 9 10 (take 20 (drop 14 frame)))"
      using StructIpHeader_ok [of "take 20 (drop 14 frame)"] by auto
    have pr: "ip_protocol i = from_bytes_big (slice 23 24 frame)"
      by (simp add: i(2) slice_def drop_take)
    show ?thesis
    proof (cases "from_bytes_big (slice 23 24 frame) = 17")
      case False
      then show ?thesis
        by (simp add: parse_stack_def parse_ethernet_def slice_0 then_do_def e(1) ty True ip
            i(1) pr)
    next
      case p17: True
      with rest have l42: "42 \<le> length frame"
        and port: "from_bytes_big (slice 36 38 frame) \<noteq> 4790"
        by simp_all
      from l42 obtain u where u: "StructUdpHeader (take 8 (drop 34 frame)) = Inr u"
        "udp_dst_port u = from_bytes_big (slice 2 4 (take 8 (drop 34 frame)))"
        using StructUdpHeader_ok [of "take 8 (drop 34 frame)"] by auto
      have po: "udp_dst_port u = from_bytes_big (slice 36 38 frame)"
        by (simp add: u(2) slice_def drop_take)
      show ?thesis
        by (simp add: parse_stack_def parse_ethernet_def parse_udp_def slice_0 then_do_def e(1)
            ty True ip i(1) pr p17 u(1) po port)
    qed
  qed
qed

text \<open>
  C3, as amended: a frame that the ethertype, the protocol or the port test turns away,
  the headers read up to that test being whole and of their fixed sizes, is dropped
  silently: the call returns, no exception escapes, and the tables and the log of sent
  bytes are as they were. For every frame that does not parse fully, a header of
  unexpected length included, the call ends with the tables and the log of sent bytes as
  they were: nothing is emitted and neither table changes.
\<close>

theorem deencapsulate_not_parsed:
  "(turned_away frame \<longrightarrow>
      parse_frame_and_deencapsulate send frame sck w = Some (Returned w))
   \<and> (\<not> parses_fully frame \<longrightarrow>
      (\<exists>out. parse_frame_and_deencapsulate send frame sck w = Some out \<and> world_of out = w))"
proof (intro conjI impI)
  assume "turned_away frame"
  then show "parse_frame_and_deencapsulate send frame sck w = Some (Returned w)"
    by (simp add: parse_frame_and_deencapsulate_def parse_stack_turned_away)
next
  assume "\<not> parses_fully frame"
  from parse_stack_not_fully [OF this]
  show "\<exists>out. parse_frame_and_deencapsulate send frame sck w = Some out \<and> world_of out = w"
    by (auto simp: parse_frame_and_deencapsulate_def)
qed

text \<open>
  C5: a bare frame received on unencap-in that parses as Ethernet (0x0800), IPv4
  (protocol 6) and TCP, and whose key is not in the forward table, is dropped silently:
  the call returns with the world as it was, so nothing was sent and both tables are
  unchanged.
\<close>

theorem encapsulate_unknown_flow_dropped:
  assumes "parses_bare frame" and "frame_key frame \<notin> dom (sessions w)"
  shows "parse_frame_and_encapsulate send frame sckt_encap w = Some (Returned w)"
proof -
  from parse_bare_ok [OF assms(1)] obtain t where
    "parse_bare frame = Inr (Some t)" "key_of t = frame_key frame"
    by blast
  moreover from assms(2) have "sessions w (frame_key frame) = None"
    by (simp only: domIff not_not)
  ultimately show ?thesis
    by (simp add: parse_frame_and_encapsulate_def)
qed

text \<open>
  C4: a frame received on unencap-out that parses as Ethernet (0x0800), IPv4 (protocol 6)
  and TCP, whose swapped key is in the forward table and not in the reply table, makes
  the reverse-encap pipeline raise \<open>KeyError\<close> with the world as it was (nothing sent, no
  table changed), and the exception ends the worker: the frames that follow are not
  processed.
\<close>

theorem reverse_encap_raises_KeyError:
  assumes "parses_bare frame"
      and "swap_key (frame_key frame) \<in> dom (sessions w)"
      and "swap_key (frame_key frame) \<notin> dom (sessions_reply_info w)"
  shows "parse_frame_and_encapsulate_test send frame sckt_encap w = Some (Raised KeyError w)
         \<and> test_loop send (frame # frames) w = Some (Raised KeyError w)"
proof -
  from parse_bare_ok [OF assms(1)] obtain t where
    t: "parse_bare frame = Inr (Some t)" "swapped_key_of t = swap_key (frame_key frame)"
    by blast
  from assms(2) obtain b where b: "sessions w (swap_key (frame_key frame)) = Some b"
    by blast
  from assms(3) have n: "sessions_reply_info w (swap_key (frame_key frame)) = None"
    by (simp only: domIff not_not)
  have "parse_frame_and_encapsulate_test send frame sckt_encap w = Some (Raised KeyError w)"
    by (simp add: parse_frame_and_encapsulate_test_def t b n split: prod.splits)
  then show ?thesis by (simp add: test_loop_def)
qed

section \<open>The pipelines on the example frames\<close>

lemmas ex_frames = ex_frame_def ex_reply_frame_def ex_outer_eth_def ex_outer_ip_def ex_udp_def
  ex_vxlan_def ex_eth_nsh_def ex_nsh_def ex_bare_def ex_reply_outer_eth_def
  ex_reply_outer_ip_def ex_reply_nsh_def ex_reply_bare_def

lemma ex_frame_parses: "parses_fully ex_frame" "parses_fully ex_reply_frame"
  by (simp_all add: parses_fully_def ex_frames slice_def from_bytes_big_def)

lemma ex_frame_parts:
  "inner_frame ex_frame = ex_bare" "frame_bundle ex_frame = ex_bundle"
  "inner_frame ex_reply_frame = ex_reply_bare" "frame_bundle ex_reply_frame = ex_reply_bundle"
  by (simp_all add: inner_frame_def frame_bundle_def ex_bundle_def ex_reply_bundle_def ex_frames
      slice_def)

lemma ex_bare_parses: "parses_bare ex_bare" "parses_bare ex_reply_bare"
  by (simp_all add: parses_bare_def ex_frames slice_def from_bytes_big_def)

lemma ex_keys:
  "frame_key ex_bare =
     ([0x02, 0x00, 0x00, 0x00, 0x00, 0x06], [0x02, 0x00, 0x00, 0x00, 0x00, 0x05], 0x0800,
      [0x0A, 0x00, 0x00, 0x02], [0x0A, 0x00, 0x00, 0x01], 80, 40000)"
  "frame_key ex_reply_bare =
     ([0x02, 0x00, 0x00, 0x00, 0x00, 0x05], [0x02, 0x00, 0x00, 0x00, 0x00, 0x06], 0x0800,
      [0x0A, 0x00, 0x00, 0x01], [0x0A, 0x00, 0x00, 0x02], 40000, 80)"
  by (simp_all add: frame_key_def ex_frames slice_def from_bytes_big_def)

lemma ex_swap: "swap_key (frame_key ex_reply_bare) = frame_key ex_bare"
  by (simp add: ex_keys swap_key_def)

lemma ex_key_ne: "frame_key ex_reply_bare \<noteq> frame_key ex_bare"
  by (simp add: ex_keys)

lemma ex_ihl6: "parse_stack ex_frame_ihl6 = Inl StructError"
  by (simp add: ex_frame_ihl6_def ex_frames parse_stack_def parse_ethernet_def parse_ip_def
      then_do_def StructEthHeader_def StructIpHeader_def unpack_s_def unpack_uint_def slice_def
      from_bytes_big_def)

lemma ex_short: "parse_stack ex_frame_short = Inl StructError"
  by (simp add: ex_frame_short_def ex_frames parse_stack_def parse_ethernet_def parse_ip_def
      parse_udp_def parse_vxlan_gpe_def parse_nsh_def then_do_def StructEthHeader_def
      StructIpHeader_def StructUdpHeader_def StructVxLanGPEHeader_def StructNshHeader_def
      unpack_s_def unpack_uint_def slice_def from_bytes_big_def)

lemma ex_turned_away:
  "turned_away ex_frame_ipv6" "turned_away ex_frame_tcp" "turned_away ex_frame_4789"
  by (simp_all add: turned_away_def ex_frame_ipv6_def ex_frame_tcp_def ex_frame_4789_def
      ex_frames slice_def from_bytes_big_def)

lemma ex_not_parsed: "\<not> parses_fully ex_frame_ihl6" "\<not> parses_fully ex_frame_short"
  using parse_stack_ok [of ex_frame_ihl6] parse_stack_ok [of ex_frame_short]
  by (auto simp: ex_ihl6 ex_short)

theorem deencapsulate_records_and_emits_witness:
  "parses_fully ex_frame \<and> parses_fully ex_reply_frame \<and> send_progress send_half
   \<and> (\<exists>w' chunks.
        parse_frame_and_deencapsulate send_half ex_frame sckt_unencap_out world0
          = Some (Returned w')
        \<and> concat chunks = ex_bare
        \<and> sessions w' = [frame_key ex_bare \<mapsto> ex_bundle]
        \<and> sessions_reply_info w' = Map.empty
        \<and> sent_log w' = map (Pair sckt_unencap_out) chunks)
   \<and> (\<exists>w' chunks.
        parse_frame_and_deencapsulate send_half ex_reply_frame sckt_unencap_out world1
          = Some (Returned w')
        \<and> concat chunks = ex_reply_bare
        \<and> sessions_reply_info w' = [frame_key ex_bare \<mapsto> ex_reply_bundle]
        \<and> sessions w' = [frame_key ex_bare \<mapsto> ex_bundle]
        \<and> sent_log w' = map (Pair sckt_unencap_in) chunks)"
proof -
  have fwd: "swap_key (frame_key ex_bare) \<notin> dom (sessions world0)"
    by (simp add: world0_def)
  have rep: "swap_key (frame_key ex_reply_bare) \<in> dom (sessions world1)"
    by (simp add: world1_def ex_swap)
  have "\<exists>w' chunks.
        parse_frame_and_deencapsulate send_half ex_frame sckt_unencap_out world0
          = Some (Returned w')
        \<and> concat chunks = ex_bare
        \<and> sessions w' = [frame_key ex_bare \<mapsto> ex_bundle]
        \<and> sessions_reply_info w' = Map.empty
        \<and> sent_log w' = map (Pair sckt_unencap_out) chunks"
    using deencapsulate_records_and_emits [OF ex_frame_parses(1) send_progress_half, of world0]
      fwd
    by (simp add: ex_frame_parts world0_def)
  moreover have "\<exists>w' chunks.
        parse_frame_and_deencapsulate send_half ex_reply_frame sckt_unencap_out world1
          = Some (Returned w')
        \<and> concat chunks = ex_reply_bare
        \<and> sessions_reply_info w' = [frame_key ex_bare \<mapsto> ex_reply_bundle]
        \<and> sessions w' = [frame_key ex_bare \<mapsto> ex_bundle]
        \<and> sent_log w' = map (Pair sckt_unencap_in) chunks"
    using deencapsulate_records_and_emits [OF ex_frame_parses(2) send_progress_half, of world1]
      rep
    by (simp add: ex_frame_parts ex_swap world1_def world0_def)
  ultimately show ?thesis
    using ex_frame_parses send_progress_half by blast
qed

theorem deencapsulate_not_parsed_witness:
  "turned_away ex_frame_ipv6
   \<and> parse_frame_and_deencapsulate send_whole ex_frame_ipv6 sckt_unencap_out world1
       = Some (Returned world1)
   \<and> turned_away ex_frame_tcp
   \<and> parse_frame_and_deencapsulate send_whole ex_frame_tcp sckt_unencap_out world1
       = Some (Returned world1)
   \<and> turned_away ex_frame_4789
   \<and> parse_frame_and_deencapsulate send_whole ex_frame_4789 sckt_unencap_out world1
       = Some (Returned world1)
   \<and> \<not> parses_fully ex_frame_short
   \<and> (\<exists>out. parse_frame_and_deencapsulate send_whole ex_frame_short sckt_unencap_out world1
               = Some out
          \<and> world_of out = world1)"
  using deencapsulate_not_parsed [of ex_frame_ipv6 send_whole sckt_unencap_out world1]
    deencapsulate_not_parsed [of ex_frame_tcp send_whole sckt_unencap_out world1]
    deencapsulate_not_parsed [of ex_frame_4789 send_whole sckt_unencap_out world1]
    deencapsulate_not_parsed [of ex_frame_short send_whole sckt_unencap_out world1]
    ex_turned_away ex_not_parsed(2)
  by blast

text \<open>
  C3 as stated fails on a header of unexpected length. The frame cut ten bytes into its
  NSH header passes the three value tests, and \<^verbatim>\<open>StructNshHeader\<close> raises on the short
  slice: the program checks no length and handles no exception anywhere. The frame whose
  outer IPv4 header declares 6 words raises in \<^verbatim>\<open>StructIpHeader\<close>, which unpacks the
  whole slice that \<^verbatim>\<open>parse_ip\<close> cut by the declared length. In both cases the exception
  escapes the pipeline and ends the worker before it reads the next frame.
\<close>

theorem deencapsulate_header_length_counterexample:
  "\<not> parses_fully ex_frame_short
   \<and> parse_frame_and_deencapsulate send_whole ex_frame_short sckt_unencap_out world1
       = Some (Raised StructError world1)
   \<and> unencapsulating_loop send_whole [ex_frame_short, ex_frame] world1
       = Some (Raised StructError world1)
   \<and> \<not> parses_fully ex_frame_ihl6
   \<and> parse_frame_and_deencapsulate send_whole ex_frame_ihl6 sckt_unencap_out world1
       = Some (Raised StructError world1)
   \<and> unencapsulating_loop send_whole [ex_frame_ihl6, ex_frame] world1
       = Some (Raised StructError world1)"
  using ex_not_parsed
  by (simp add: parse_frame_and_deencapsulate_def unencapsulating_loop_def ex_ihl6 ex_short)

theorem encapsulate_unknown_flow_dropped_witness:
  "parses_bare ex_reply_bare \<and> frame_key ex_reply_bare \<notin> dom (sessions world1)
   \<and> parse_frame_and_encapsulate send_whole ex_reply_bare sckt_encap world1
       = Some (Returned world1)"
proof -
  have a: "frame_key ex_reply_bare \<notin> dom (sessions world1)"
    using ex_key_ne by (simp add: world1_def)
  from encapsulate_unknown_flow_dropped [OF ex_bare_parses(2) a, of send_whole]
  show ?thesis using ex_bare_parses(2) a by simp
qed

theorem reverse_encap_raises_KeyError_witness:
  "parses_bare ex_reply_bare
   \<and> swap_key (frame_key ex_reply_bare) \<in> dom (sessions world1)
   \<and> swap_key (frame_key ex_reply_bare) \<notin> dom (sessions_reply_info world1)
   \<and> parse_frame_and_encapsulate_test send_whole ex_reply_bare sckt_encap world1
       = Some (Raised KeyError world1)
   \<and> test_loop send_whole [ex_reply_bare, ex_reply_bare] world1
       = Some (Raised KeyError world1)"
proof -
  have a: "swap_key (frame_key ex_reply_bare) \<in> dom (sessions world1)"
    by (simp add: world1_def ex_swap)
  have b: "swap_key (frame_key ex_reply_bare) \<notin> dom (sessions_reply_info world1)"
    by (simp add: world1_def world0_def)
  from reverse_encap_raises_KeyError [OF ex_bare_parses(2) a b, of send_whole "[ex_reply_bare]"]
  show ?thesis using ex_bare_parses(2) a b by simp
qed

section \<open>The encapsulation pipeline\<close>

lemma make_ethernet_header_swap_result:
  assumes "length h = 14"
  shows "make_ethernet_header_swap h = Inr (slice 6 12 h @ slice 0 6 h @ slice 12 14 h)"
  using assms
  by (simp add: make_ethernet_header_swap_def then_do_def StructEthHeader_def pack_EthHeader_def
      uint_ok_unpack pack_s_unpack to_bytes_big_unpack del: to_bytes_big.simps)

lemma make_ip_header_swap_result:
  assumes "length h = 20"
  shows "make_ip_header_swap h = Inr (slice 0 12 h @ slice 16 20 h @ slice 12 16 h)"
proof -
  have "slice 0 2 h @ slice 2 4 h @ slice 4 6 h @ slice 6 8 h @ slice 8 9 h @ slice 9 10 h
      @ slice 10 12 h @ slice 16 20 h @ slice 12 16 h
      = slice 0 12 h @ slice 16 20 h @ slice 12 16 h"
    by (simp add: slice_append2)
  then show ?thesis using assms
    by (simp add: make_ip_header_swap_def then_do_def StructIpHeader_def pack_IpHeader_def
        uint_ok_unpack pack_s_unpack to_bytes_big_unpack del: to_bytes_big.simps)
qed

lemma send_all_tables:
  assumes "send_all send s pkt w = Some w'"
  shows "sessions w' = sessions w \<and> sessions_reply_info w' = sessions_reply_info w"
  using assms
proof (induction rule: send_all.raw_induct [rotated, consumes 1])
  case (1 send_all' send s new_pkt w w')
  show ?case
  proof (cases "new_pkt = []")
    case True
    with 1(2) show ?thesis by simp
  next
    case False
    with 1(2) have "send_all' send s (drop (fst (send s new_pkt (net w))) new_pkt)
             (w\<lparr>net := snd (send s new_pkt (net w)),
                sent_log := sent_log w @ [(s, take (fst (send s new_pkt (net w))) new_pkt)]\<rparr>)
        = Some w'"
      by simp
    from 1(1) [OF this] show ?thesis by simp
  qed
qed


lemma tables_wf_same:
  "sessions w' = sessions w \<Longrightarrow> sessions_reply_info w' = sessions_reply_info w \<Longrightarrow>
   tables_wf w' = tables_wf w"
  by (simp add: tables_wf_def)

lemma tables_wf_world0: "tables_wf world0"
  by (simp add: tables_wf_def world0_def)

lemma bundle_wf_frame:
  assumes "parses_fully frame"
  shows "bundle_wf (frame_bundle frame)"
proof -
  from assms have "142 \<le> length frame" by (simp add: parses_fully_def)
  then show ?thesis by (simp add: bundle_wf_def frame_bundle_def length_slice)
qed

text \<open>The three pipelines keep the tables well formed: only the de-encapsulation pipeline
  writes to them, and it writes the slices of a frame that parsed fully.\<close>

lemma deencapsulate_tables_wf:
  assumes "tables_wf w" "parse_frame_and_deencapsulate send frame sck w = Some r"
  shows "tables_wf (world_of r)"
proof (cases "parses_fully frame")
  case False
  from parse_stack_not_fully [OF this] assms show ?thesis
    by (auto simp: parse_frame_and_deencapsulate_def)
next
  case True
  note b = bundle_wf_frame [OF True]
  let ?k = "frame_key (inner_frame frame)"
  show ?thesis
  proof (cases "sessions w (swap_key ?k) = None")
    case n: True
    define w1 where "w1 = w\<lparr>sessions := (sessions w)(?k \<mapsto> frame_bundle frame)\<rparr>"
    from assms(2) n obtain w' where r: "r = Returned w'"
      and s: "send_all send sck (inner_frame frame) w1 = Some w'"
      by (auto simp: deencapsulate_parsed [OF True] w1_def)
    have "tables_wf w1" using assms(1) b by (auto simp: tables_wf_def w1_def)
    with send_all_tables [OF s] show ?thesis by (simp add: r tables_wf_def)
  next
    case n: False
    define w1 where "w1 = w\<lparr>sessions_reply_info :=
        (sessions_reply_info w)(swap_key ?k \<mapsto> frame_bundle frame)\<rparr>"
    from assms(2) n obtain w' where r: "r = Returned w'"
      and s: "send_all send sckt_unencap_in (inner_frame frame) w1 = Some w'"
      by (auto simp: deencapsulate_parsed [OF True] w1_def)
    have "tables_wf w1" using assms(1) b by (auto simp: tables_wf_def w1_def)
    with send_all_tables [OF s] show ?thesis by (simp add: r tables_wf_def)
  qed
qed

lemma encapsulate_tables:
  assumes "parse_frame_and_encapsulate send frame sck w = Some r"
  shows "sessions (world_of r) = sessions w
         \<and> sessions_reply_info (world_of r) = sessions_reply_info w"
  using assms
  by (auto simp: parse_frame_and_encapsulate_def dest: send_all_tables
      split: sum.splits option.splits prod.splits)

lemma encapsulate_test_tables:
  assumes "parse_frame_and_encapsulate_test send frame sck w = Some r"
  shows "sessions (world_of r) = sessions w
         \<and> sessions_reply_info (world_of r) = sessions_reply_info w"
  using assms
  by (auto simp: parse_frame_and_encapsulate_test_def dest: send_all_tables
      split: sum.splits option.splits prod.splits)

lemma worker_invariant:
  assumes "\<And>frame w r. I w \<Longrightarrow> step frame w = Some r \<Longrightarrow> I (world_of r)"
  shows "I w \<Longrightarrow> worker step frames w = Some r \<Longrightarrow> I (world_of r)"
proof (induction frames arbitrary: w)
  case Nil
  then show ?case by auto
next
  case (Cons frame frames)
  from Cons.prems(2) obtain r1 where r1: "step frame w = Some r1"
    by (auto split: option.splits)
  note i1 = assms [OF Cons.prems(1) r1]
  show ?case
  proof (cases r1)
    case (Returned w1)
    with Cons.prems(2) r1 have "worker step frames w1 = Some r" by simp
    moreover from i1 Returned have "I w1" by simp
    ultimately show ?thesis by (rule Cons.IH [rotated])
  next
    case (Raised e w1)
    with Cons.prems(2) r1 i1 show ?thesis by auto
  qed
qed

text \<open>Every world that the three workers reach from a well-formed one is well formed.\<close>

lemma loops_tables_wf:
  assumes "tables_wf w"
  shows "unencapsulating_loop send frames w = Some r \<Longrightarrow> tables_wf (world_of r)"
    and "encapsulating_loop send frames w = Some r \<Longrightarrow> tables_wf (world_of r)"
    and "test_loop send frames w = Some r \<Longrightarrow> tables_wf (world_of r)"
proof -
  show "tables_wf (world_of r)" if "unencapsulating_loop send frames w = Some r"
    using assms that unfolding unencapsulating_loop_def
    by (rule worker_invariant [rotated]) (rule deencapsulate_tables_wf)
  show "tables_wf (world_of r)" if "encapsulating_loop send frames w = Some r"
    using assms that unfolding encapsulating_loop_def
    by (rule worker_invariant [rotated]) (simp add: tables_wf_def encapsulate_tables)
  show "tables_wf (world_of r)" if "test_loop send frames w = Some r"
    using assms that unfolding test_loop_def
    by (rule worker_invariant [rotated]) (simp add: tables_wf_def encapsulate_test_tables)
qed

text \<open>
  C2, as amended: for every bare frame received on unencap-in that parses as Ethernet
  (0x0800), IPv4 (protocol 6) and TCP, whose key is in the forward table with bundle
  \<open>(oe, oi, u, v, en, n)\<close>, the tables being well formed (as the pipelines keep them)
  and the Service Index of \<open>n\<close> being at least 1, on a socket that makes progress: the
  bytes that go out on the encap interface are the outer Ethernet with the two addresses
  exchanged, the outer IPv4 with the two addresses exchanged and every other byte, the
  checksum among them, as stored, the UDP, VXLAN-GPE and NSH-carrying Ethernet headers as
  stored, the NSH with its Service Index byte one less, and the whole input frame; the
  tables are not modified. At Service Index 0 the claim as worded fails
  (\<open>encapsulate_si0_counterexample\<close>, \<open>make_nsh_decr_si_borrow\<close>).
\<close>

theorem encapsulate_rebuilds_frame:
  assumes "parses_bare frame"
      and "tables_wf w"
      and "sessions w (frame_key frame) = Some (oe, oi, u, v, en, n)"
      and "StructNshHeader n = Inr nt" and "1 \<le> get_nsh_si nt"
      and "send_progress send"
  shows "\<exists>w' chunks.
           parse_frame_and_encapsulate send frame sckt_encap w = Some (Returned w')
           \<and> sent_log w' = sent_log w @ map (Pair sckt_encap) chunks
           \<and> concat chunks =
               (slice 6 12 oe @ slice 0 6 oe @ slice 12 14 oe)
               @ (slice 0 12 oi @ slice 16 20 oi @ slice 12 16 oi)
               @ u @ v @ en
               @ (take 7 n @ [n ! 7 - 1] @ drop 8 n)
               @ frame
           \<and> sessions w' = sessions w \<and> sessions_reply_info w' = sessions_reply_info w"
proof -
  from parse_bare_ok [OF assms(1)] obtain t where
    t: "parse_bare frame = Inr (Some t)" "key_of t = frame_key frame"
    by blast
  from assms(2,3) have "bundle_wf (oe, oi, u, v, en, n)"
    unfolding tables_wf_def by blast
  then have l: "length oe = 14" "length oi = 20" "length n = 24"
    by (simp_all add: bundle_wf_def)
  note e = make_ethernet_header_swap_result [OF l(1)]
  note i = make_ip_header_swap_result [OF l(2)]
  from make_nsh_decr_si_result [OF l(3) assms(4,5)]
  have d: "make_nsh_decr_si n = Inr (take 7 n @ [n ! 7 - 1] @ drop 8 n)" by auto
  define pkt where "pkt = (slice 6 12 oe @ slice 0 6 oe @ slice 12 14 oe)
               @ (slice 0 12 oi @ slice 16 20 oi @ slice 12 16 oi)
               @ u @ v @ en @ (take 7 n @ [n ! 7 - 1] @ drop 8 n) @ frame"
  have run: "parse_frame_and_encapsulate send frame sckt_encap w
      = map_option Returned (send_all send sckt_encap pkt w)"
    by (simp add: parse_frame_and_encapsulate_def t assms(3) e i d pkt_def)
  from send_all_total [OF assms(6), of sckt_encap pkt w] obtain w' chunks where
    "send_all send sckt_encap pkt w = Some w'"
    "sent_log w' = sent_log w @ map (Pair sckt_encap) chunks" "concat chunks = pkt"
    "sessions w' = sessions w" "sessions_reply_info w' = sessions_reply_info w"
    by blast
  then show ?thesis unfolding run pkt_def by auto
qed

lemma ex_world1_wf: "tables_wf world1"
  by (auto simp: tables_wf_def world1_def world0_def bundle_wf_def ex_bundle_def ex_frames
      split: if_splits)

lemma ex_nsh_unpacked:
  "StructNshHeader ex_nsh = Inr ex_nsh_nt" "get_nsh_si ex_nsh_nt = 5"
  by (simp_all add: ex_nsh_def ex_nsh_nt_def StructNshHeader_def unpack_uint_def slice_def
      from_bytes_big_def get_nsh_si_def)

theorem encapsulate_rebuilds_frame_witness:
  "parses_bare ex_bare \<and> tables_wf world1
   \<and> sessions world1 (frame_key ex_bare) = Some ex_bundle
   \<and> StructNshHeader ex_nsh = Inr ex_nsh_nt \<and> 1 \<le> get_nsh_si ex_nsh_nt
   \<and> send_progress send_half
   \<and> (\<exists>w' chunks.
        parse_frame_and_encapsulate send_half ex_bare sckt_encap world1 = Some (Returned w')
        \<and> sent_log w' = map (Pair sckt_encap) chunks
        \<and> concat chunks =
           [0x02, 0x00, 0x00, 0x00, 0x00, 0x02, 0x02, 0x00, 0x00, 0x00, 0x00, 0x01, 0x08, 0x00,
            0x45, 0x00, 0x00, 0x80, 0x00, 0x01, 0x40, 0x00, 0x40, 0x11, 0xB9, 0x18, 0xC0, 0xA8,
            0x00, 0x02, 0xC0, 0xA8, 0x00, 0x01, 0xC0, 0x00, 0x12, 0xB6, 0x00, 0x6C, 0x00, 0x00,
            0x0C, 0x00, 0x00, 0x04, 0x00, 0x00, 0x2A, 0x00, 0x02, 0x00, 0x00, 0x00, 0x00, 0x03,
            0x02, 0x00, 0x00, 0x00, 0x00, 0x04, 0x89, 0x4F, 0x00, 0x06, 0x01, 0x03, 0x00, 0x00,
            0x64, 0x04, 0x00, 0x00, 0x00, 0x00, 0x00, 0x00, 0x00, 0x00, 0x00, 0x00, 0x00, 0x00,
            0x00, 0x00, 0x00, 0x00]
           @ ex_bare
        \<and> sessions w' = sessions world1 \<and> sessions_reply_info w' = Map.empty)"
proof -
  have a: "sessions world1 (frame_key ex_bare)
      = Some (ex_outer_eth, ex_outer_ip, ex_udp, ex_vxlan, ex_eth_nsh, ex_nsh)"
    by (simp add: world1_def ex_bundle_def)
  have si: "1 \<le> get_nsh_si ex_nsh_nt" by (simp add: ex_nsh_unpacked(2))
  from encapsulate_rebuilds_frame [OF ex_bare_parses(1) ex_world1_wf a ex_nsh_unpacked(1) si
      send_progress_half]
  have "\<exists>w' chunks.
        parse_frame_and_encapsulate send_half ex_bare sckt_encap world1 = Some (Returned w')
        \<and> sent_log w' = map (Pair sckt_encap) chunks
        \<and> concat chunks =
           [0x02, 0x00, 0x00, 0x00, 0x00, 0x02, 0x02, 0x00, 0x00, 0x00, 0x00, 0x01, 0x08, 0x00,
            0x45, 0x00, 0x00, 0x80, 0x00, 0x01, 0x40, 0x00, 0x40, 0x11, 0xB9, 0x18, 0xC0, 0xA8,
            0x00, 0x02, 0xC0, 0xA8, 0x00, 0x01, 0xC0, 0x00, 0x12, 0xB6, 0x00, 0x6C, 0x00, 0x00,
            0x0C, 0x00, 0x00, 0x04, 0x00, 0x00, 0x2A, 0x00, 0x02, 0x00, 0x00, 0x00, 0x00, 0x03,
            0x02, 0x00, 0x00, 0x00, 0x00, 0x04, 0x89, 0x4F, 0x00, 0x06, 0x01, 0x03, 0x00, 0x00,
            0x64, 0x04, 0x00, 0x00, 0x00, 0x00, 0x00, 0x00, 0x00, 0x00, 0x00, 0x00, 0x00, 0x00,
            0x00, 0x00, 0x00, 0x00]
           @ ex_bare
        \<and> sessions w' = sessions world1 \<and> sessions_reply_info w' = Map.empty"
    by (simp add: world1_def world0_def slice_def ex_outer_eth_def ex_outer_ip_def ex_udp_def
        ex_vxlan_def ex_eth_nsh_def ex_nsh_def)
  then show ?thesis
    using ex_bare_parses(1) ex_world1_wf a ex_nsh_unpacked(1) si send_progress_half
    by (simp add: ex_bundle_def)
qed


text \<open>At SI 0 the subtraction borrows from the SPI, or leaves the range of the field.\<close>

lemma make_nsh_decr_si_zero: "make_nsh_decr_si ex_nsh_si0 = Inl StructError"
  by (simp add: make_nsh_decr_si_def then_do_def StructNshHeader_def ex_nsh_si0_def
      unpack_uint_def slice_def from_bytes_big_def make_nsh_sph_with_si_def get_nsh_spi_def
      get_nsh_si_def pack_NshHeader_def uint_ok_def)

lemma make_nsh_decr_si_borrow:
  "make_nsh_decr_si
     [0x00, 0x06, 0x01, 0x03, 0x00, 0x00, 0x64, 0x00, 0x00, 0x00, 0x00, 0x00, 0x00, 0x00,
      0x00, 0x00, 0x00, 0x00, 0x00, 0x00, 0x00, 0x00, 0x00, 0x00]
   = Inr [0x00, 0x06, 0x01, 0x03, 0x00, 0x00, 0x63, 0xFF, 0x00, 0x00, 0x00, 0x00, 0x00, 0x00,
          0x00, 0x00, 0x00, 0x00, 0x00, 0x00, 0x00, 0x00, 0x00, 0x00]"
  by (simp add: make_nsh_decr_si_def then_do_def StructNshHeader_def
      unpack_uint_def slice_def from_bytes_big_def make_nsh_sph_with_si_def get_nsh_spi_def
      get_nsh_si_def pack_NshHeader_def uint_ok_def to_bytes_big_numeral)

lemma ex_si0_parts:
  "parses_fully ex_frame_si0" "inner_frame ex_frame_si0 = ex_bare"
  "frame_bundle ex_frame_si0 = ex_bundle_si0"
  by (simp_all add: parses_fully_def inner_frame_def frame_bundle_def ex_bundle_si0_def
      ex_frame_si0_def ex_nsh_si0_def ex_frames slice_def from_bytes_big_def)

lemma ex_si0_world_wf: "tables_wf world_si0"
  by (auto simp: tables_wf_def world_si0_def bundle_wf_def ex_bundle_si0_def ex_nsh_si0_def
      ex_frames split: if_splits)

lemma ex_si0_primed:
  "parse_frame_and_deencapsulate send_whole ex_frame_si0 sckt_unencap_out world0
   = Some (Returned world_si0)"
proof -
  have "send_all send_whole sckt_unencap_out ex_bare
          (world0\<lparr>sessions := [frame_key ex_bare \<mapsto> ex_bundle_si0]\<rparr>)
        = Some world_si0"
    by (simp add: send_all_step send_all_Nil send_whole_def world0_def world_si0_def ex_bare_def)
  then show ?thesis
    by (simp add: deencapsulate_parsed [OF ex_si0_parts(1)] ex_si0_parts(2,3) world0_def)
qed

theorem encapsulate_si0_counterexample:
  "parse_frame_and_deencapsulate send_whole ex_frame_si0 sckt_unencap_out world0
     = Some (Returned world_si0)
   \<and> tables_wf world_si0 \<and> parses_bare ex_bare
   \<and> sessions world_si0 (frame_key ex_bare) = Some ex_bundle_si0
   \<and> send_progress send_whole
   \<and> parse_frame_and_encapsulate send_whole ex_bare sckt_encap world_si0
       = Some (Raised StructError world_si0)
   \<and> encapsulating_loop send_whole [ex_bare, ex_bare] world_si0
       = Some (Raised StructError world_si0)"
proof -
  from parse_bare_ok [OF ex_bare_parses(1)] obtain t where
    t: "parse_bare ex_bare = Inr (Some t)" "key_of t = frame_key ex_bare"
    by blast
  have s: "sessions world_si0 (frame_key ex_bare) = Some ex_bundle_si0"
    by (simp add: world_si0_def)
  have e: "make_ethernet_header_swap ex_outer_eth
      = Inr (slice 6 12 ex_outer_eth @ slice 0 6 ex_outer_eth @ slice 12 14 ex_outer_eth)"
    by (rule make_ethernet_header_swap_result) (simp add: ex_outer_eth_def)
  have i: "make_ip_header_swap ex_outer_ip
      = Inr (slice 0 12 ex_outer_ip @ slice 16 20 ex_outer_ip @ slice 12 16 ex_outer_ip)"
    by (rule make_ip_header_swap_result) (simp add: ex_outer_ip_def)
  have r: "parse_frame_and_encapsulate send_whole ex_bare sckt_encap world_si0
       = Some (Raised StructError world_si0)"
    using s by (simp add: parse_frame_and_encapsulate_def t ex_bundle_si0_def e i
        make_nsh_decr_si_zero)
  then have "encapsulating_loop send_whole [ex_bare, ex_bare] world_si0
       = Some (Raised StructError world_si0)"
    by (simp add: encapsulating_loop_def)
  with r s ex_si0_primed ex_si0_world_wf ex_bare_parses(1) send_progress_whole
  show ?thesis by simp
qed

section \<open>The Internet checksum\<close>

lemma and_ffff: "(x::int) AND 0xffff = x mod 65536"
  using take_bit_eq_mask [of 16 x] by (simp add: take_bit_eq_mod mask_eq_exp_minus_1)

lemma drop_bit_16: "drop_bit 16 (x::int) = x div 65536"
  by (simp add: drop_bit_eq_div)

lemma fold16_arith:
  "fold16 x = (x div 65536 + x mod 65536 + (x div 65536 + x mod 65536) div 65536) mod 65536"
  by (simp add: fold16_def Let_def and_ffff drop_bit_16)

lemma fold16_small:
  assumes "0 \<le> x" "x \<le> 655350"
  shows "fold16 x = (if x div 65536 + x mod 65536 < 65536 then x div 65536 + x mod 65536
                     else x div 65536 + x mod 65536 - 65535)"
proof -
  define q where "q = x div 65536"
  define r where "r = x mod 65536"
  have q: "0 \<le> q" "q \<le> 9" using assms by (simp_all add: q_def)
  have r: "0 \<le> r" "r < 65536" by (simp_all add: r_def)
  show ?thesis
  proof (cases "q + r < 65536")
    case True
    with q r have "(q + r) div 65536 = 0" by simp
    moreover from True q r have "(q + r) mod 65536 = q + r" by simp
    ultimately show ?thesis using True by (simp add: fold16_arith flip: q_def r_def)
  next
    case False
    have e: "q + r = 65536 * 1 + (q + r - 65536)" by simp
    have b: "0 \<le> q + r - 65536" "q + r - 65536 < 65536" using False q r by linarith+
    have d: "(q + r) div 65536 = 1" using e b by (rule int_div_pos_eq)
    have e2: "q + r + 1 = 65536 * 1 + (q + r - 65535)" by simp
    have b2: "0 \<le> q + r - 65535" "q + r - 65535 < 65536" using False q r by linarith+
    have "(q + r + 1) mod 65536 = q + r - 65535" using e2 b2 by (rule int_mod_pos_eq)
    then show ?thesis using False d by (simp add: fold16_arith flip: q_def r_def)
  qed
qed

lemma fold16_bounds:
  assumes "0 \<le> x" "x \<le> 655350"
  shows "0 \<le> fold16 x \<and> fold16 x \<le> 65535"
  by (simp add: fold16_arith)

text \<open>A sum and the complement of its folding add up to a multiple of 65535.\<close>

lemma fold16_residue:
  assumes "0 \<le> x" "x \<le> 589815"
  shows "\<exists>m. 1 \<le> m \<and> m \<le> 10 \<and> x + (65535 - fold16 x) = 65535 * m"
proof -
  define q where "q = x div 65536"
  define r where "r = x mod 65536"
  have x: "x = 65536 * q + r" by (simp add: q_def r_def)
  have q: "0 \<le> q" "q \<le> 8" using assms by (simp_all add: q_def)
  have r: "0 \<le> r" "r < 65536" by (simp_all add: r_def)
  from assms have a: "0 \<le> x" "x \<le> 655350" by simp_all
  show ?thesis
  proof (cases "q + r < 65536")
    case True
    then have "fold16 x = q + r" using fold16_small [OF a] by (simp add: q_def r_def)
    then have "x + (65535 - fold16 x) = 65535 * (q + 1)" using x by simp
    moreover have "1 \<le> q + 1" "q + 1 \<le> 10" using q by simp_all
    ultimately show ?thesis by blast
  next
    case False
    then have "fold16 x = q + r - 65535" using fold16_small [OF a] by (simp add: q_def r_def)
    then have "x + (65535 - fold16 x) = 65535 * (q + 2)" using x by simp
    moreover have "1 \<le> q + 2" "q + 2 \<le> 10" using q by simp_all
    ultimately show ?thesis by blast
  qed
qed

lemma fold16_multiple:
  assumes "1 \<le> m" "m \<le> 10"
  shows "fold16 (65535 * m) = 65535"
proof -
  have e: "65535 * m = 65536 * (m - 1) + (65536 - m)" by simp
  have b: "0 \<le> 65536 - m" "65536 - m < 65536" using assms by simp_all
  have d: "(65535 * m) div 65536 = m - 1" using e b by (rule int_div_pos_eq)
  have r: "(65535 * m) mod 65536 = 65536 - m" using e b by (rule int_mod_pos_eq)
  have a: "0 \<le> 65535 * m" "65535 * m \<le> 655350" using assms by simp_all
  show ?thesis using fold16_small [OF a] by (simp add: d r)
qed

text \<open>The last line of \<open>calculate_checksum\<close> exchanges the two low bytes.\<close>

lemma byte_swap_arith:
  "((drop_bit 8 (s::int) AND 0xff) OR push_bit 8 s) AND 0xffff
   = (s div 256) mod 256 + 256 * (s mod 256)"
proof -
  have "((drop_bit 8 s AND 0xff) OR push_bit 8 s) AND 0xffff
      = take_bit 16 (take_bit 8 (drop_bit 8 s) OR push_bit 8 s)"
    by (simp only: and_ff and_ffff take_bit_eq_mod) simp
  also have "\<dots> = take_bit 8 (drop_bit 8 s) OR push_bit 8 (take_bit 8 s)"
    by (simp add: take_bit_push_bit)
  also have "\<dots> = concat_bit 8 (drop_bit 8 s) (take_bit 8 s)"
    by (simp add: concat_bit_def)
  also have "\<dots> = take_bit 8 (drop_bit 8 s) + push_bit 8 (take_bit 8 s)"
    by (rule concat_bit_eq)
  also have "\<dots> = (s div 256) mod 256 + 256 * (s mod 256)"
    by (simp add: take_bit_eq_mod drop_bit_eq_div push_bit_eq_mult)
  finally show ?thesis .
qed

lemma not_mod_65536: "(NOT (t::int)) mod 65536 = 65535 - t mod 65536"
proof -
  have e: "NOT t = 65536 * (- (t div 65536) - 1) + (65535 - t mod 65536)"
    by (simp add: not_int_def algebra_simps)
  have b: "0 \<le> 65535 - t mod 65536" "65535 - t mod 65536 < 65536"
    by simp_all
  show ?thesis using e b by (rule int_mod_pos_eq)
qed

lemma calculate_checksum_range: "0 \<le> calculate_checksum pkt \<and> calculate_checksum pkt < 65536"
  by (simp add: calculate_checksum_def Let_def and_ffff)

lemma div_mod_65536:
  "((s::int) mod 65536) div 256 = (s div 256) mod 256" "(s mod 65536) mod 256 = s mod 256"
proof -
  have "s mod (256 * 256) = 256 * (s div 256 mod 256) + s mod 256"
    by (rule zmod_zmult2_eq) simp
  then have e: "s mod 65536 = 256 * (s div 256 mod 256) + s mod 256" by simp
  have b: "0 \<le> s mod 256" "s mod 256 < 256" by simp_all
  show "(s mod 65536) div 256 = (s div 256) mod 256" using e b by (rule int_div_pos_eq)
  show "(s mod 65536) mod 256 = s mod 256" using e b by (rule int_mod_pos_eq)
qed

text \<open>On a buffer of even length, \<open>calculate_checksum\<close> is the complement of the folded sum
  of the little-endian words, with its two bytes exchanged.\<close>

lemma calculate_checksum_even:
  assumes "even (length pkt)"
  shows "calculate_checksum pkt =
     (65535 - fold16 (sum_list (array_H pkt))) div 256
     + 256 * ((65535 - fold16 (sum_list (array_H pkt))) mod 256)"
proof -
  define S where "S = sum_list (array_H pkt)"
  define s2 where "s2 = drop_bit 16 S + (S AND 0xffff) + drop_bit 16 (drop_bit 16 S + (S AND 0xffff))"
  have f: "fold16 S = s2 mod 65536"
    by (simp add: fold16_def Let_def s2_def and_ffff)
  from assms have "length pkt mod 2 \<noteq> 1" by presburger
  then have "calculate_checksum pkt
      = ((drop_bit 8 (NOT s2) AND 0xff) OR push_bit 8 (NOT s2)) AND 0xffff"
    by (simp add: calculate_checksum_def Let_def S_def s2_def)
  also have "\<dots> = ((NOT s2) div 256) mod 256 + 256 * ((NOT s2) mod 256)"
    by (rule byte_swap_arith)
  also have "\<dots> = ((NOT s2) mod 65536) div 256 + 256 * (((NOT s2) mod 65536) mod 256)"
    by (simp only: div_mod_65536)
  also have "\<dots> = (65535 - fold16 S) div 256 + 256 * ((65535 - fold16 S) mod 256)"
    by (simp only: not_mod_65536 f)
  finally show ?thesis by (simp only: S_def)
qed

text \<open>Packed big-endian and read back as a little-endian word, the result of
  \<open>calculate_checksum\<close> is the complement itself.\<close>

lemma array_H_swapped:
  assumes "0 \<le> m" "m < 65536"
  shows "array_H (to_bytes_big 2 (m div 256 + 256 * (m mod 256))) = [m]"
proof -
  define c where "c = m div 256 + 256 * (m mod 256)"
  have q: "0 \<le> m div 256" "m div 256 < 256" using assms by simp_all
  have e: "c = 256 * (m mod 256) + m div 256" by (simp add: c_def)
  have d: "c div 256 = m mod 256" using e q by (rule int_div_pos_eq)
  have r: "c mod 256 = m div 256" using e q by (rule int_mod_pos_eq)
  have u: "uint (word_of_int x :: byte) = x mod 256" for x
    by (simp add: uint_word_of_int take_bit_eq_mod)
  have "to_bytes_big 2 c = [word_of_int (c div 256), word_of_int c]"
    by (simp add: to_bytes_big_numeral)
  then have "array_H (to_bytes_big 2 c) = [(c div 256) mod 256 + 256 * (c mod 256)]"
    by (simp add: u)
  also have "\<dots> = [m]" by (simp add: d r)
  finally show ?thesis by (simp only: c_def)
qed

lemma array_H_append:
  "even (length xs) \<Longrightarrow> array_H (xs @ ys) = array_H xs @ array_H ys"
  by (induction xs rule: array_H.induct) simp_all

lemma array_H_bounds:
  "0 \<le> sum_list (array_H bs) \<and> sum_list (array_H bs) \<le> 65535 * int (length bs div 2)"
proof (induction bs rule: array_H.induct)
  case (1 a b r)
  have "0 \<le> uint a" "uint a \<le> 255" "0 \<le> uint b" "uint b \<le> 255"
    using uint_byte_bounds [of a] uint_byte_bounds [of b] by simp_all
  with 1 show ?case by simp
qed simp_all


lemma StructIpHeader_fields:
  assumes "length h = 20"
  shows "StructIpHeader h =
     Inr \<lparr>ip_ver_ihl_type = unpack_uint 0 2 h, ip_total_length = unpack_uint 2 4 h,
          ip_id = unpack_uint 4 6 h, ip_flags_frag_offset = unpack_uint 6 8 h,
          ip_time2live = unpack_uint 8 9 h, ip_protocol = unpack_uint 9 10 h,
          ip_hdr_checksum = unpack_uint 10 12 h,
          ip_src = unpack_s 12 16 h, ip_dst = unpack_s 16 20 h\<rparr>"
  using assms by (simp add: StructIpHeader_def)

lemma pack_IpHeader_updated:
  assumes "StructIpHeader h = Inr nt" "uint_ok 2 a" "uint_ok 2 c"
  shows "pack_IpHeader (nt\<lparr>ip_total_length := a, ip_hdr_checksum := c\<rparr>)
         = Inr (slice 0 2 h @ to_bytes_big 2 a @ slice 4 10 h @ to_bytes_big 2 c @ slice 12 20 h)"
proof -
  from assms(1) have l: "length h = 20" by (rule StructIpHeader_length)
  from assms(1) have nt: "nt = \<lparr>ip_ver_ihl_type = unpack_uint 0 2 h,
          ip_total_length = unpack_uint 2 4 h,
          ip_id = unpack_uint 4 6 h, ip_flags_frag_offset = unpack_uint 6 8 h,
          ip_time2live = unpack_uint 8 9 h, ip_protocol = unpack_uint 9 10 h,
          ip_hdr_checksum = unpack_uint 10 12 h,
          ip_src = unpack_s 12 16 h, ip_dst = unpack_s 16 20 h\<rparr>"
    by (simp add: StructIpHeader_fields [OF l])
  have m: "slice 4 6 h @ slice 6 8 h @ slice 8 9 h @ slice 9 10 h @ ys = slice 4 10 h @ ys" for ys
    by (simp add: slice_append2)
  have t: "slice 12 16 h @ slice 16 20 h = slice 12 20 h"
    by (simp add: slice_append)
  show ?thesis using assms(2,3)
    by (simp add: nt pack_IpHeader_def l uint_ok_unpack pack_s_unpack to_bytes_big_unpack m t
        del: to_bytes_big.simps)
qed

text \<open>What \<open>make_ip_header\<close> returns: the header with the two bytes of the total length and
  the two bytes of the checksum replaced, the checksum being computed over the header with
  the new length and a zero checksum field.\<close>

lemma make_ip_header_result:
  assumes "length h = 20" "uint_ok 2 n"
  shows "make_ip_header h n =
     Inr (take 2 h @ to_bytes_big 2 n @ slice 4 10 h
          @ to_bytes_big 2 (calculate_checksum
               (take 2 h @ to_bytes_big 2 n @ slice 4 10 h @ [0, 0] @ drop 12 h))
          @ drop 12 h)"
proof -
  from StructIpHeader_fields [OF assms(1)] obtain nt where nt: "StructIpHeader h = Inr nt"
    and ck: "ip_hdr_checksum nt = unpack_uint 10 12 h"
    by simp
  have okc: "uint_ok 2 (ip_hdr_checksum nt)"
    unfolding ck by (rule uint_ok_unpack) (simp_all add: assms(1))
  have "nt\<lparr>ip_total_length := n\<rparr> = nt\<lparr>ip_total_length := n, ip_hdr_checksum := ip_hdr_checksum nt\<rparr>"
    by simp
  then have p1: "pack_IpHeader (nt\<lparr>ip_total_length := n\<rparr>)
      = Inr (slice 0 2 h @ to_bytes_big 2 n @ slice 4 10 h
             @ to_bytes_big 2 (ip_hdr_checksum nt) @ slice 12 20 h)"
    using pack_IpHeader_updated [OF nt assms(2) okc] by simp
  define p where "p = slice 0 2 h @ to_bytes_big 2 n @ slice 4 10 h
             @ to_bytes_big 2 (ip_hdr_checksum nt) @ slice 12 20 h"
  have lp: "length p = 20"
    by (simp add: p_def length_slice length_to_bytes_big assms(1))
  have s1: "slice 0 10 p = take 2 h @ to_bytes_big 2 n @ slice 4 10 h"
    by (simp add: p_def slice_def length_to_bytes_big assms(1) del: to_bytes_big.simps)
  have s2: "slice 12 (length p) p = drop 12 h"
    by (simp add: p_def slice_def length_to_bytes_big assms(1) del: to_bytes_big.simps)
  have c: "calculate_ip_checksum p
      = calculate_checksum (take 2 h @ to_bytes_big 2 n @ slice 4 10 h @ [0, 0] @ drop 12 h)"
    unfolding calculate_ip_checksum_def s1 s2 by simp
  have okn: "uint_ok 2 (calculate_ip_checksum p)"
    using calculate_checksum_range by (simp add: c uint_ok_def)
  have "make_ip_header h n
      = pack_IpHeader (nt\<lparr>ip_total_length := n, ip_hdr_checksum := calculate_ip_checksum p\<rparr>)"
    by (simp add: make_ip_header_def then_do_def nt Let_def p1 p_def)
  also have "\<dots> = Inr (slice 0 2 h @ to_bytes_big 2 n @ slice 4 10 h
             @ to_bytes_big 2 (calculate_ip_checksum p) @ slice 12 20 h)"
    by (rule pack_IpHeader_updated [OF nt assms(2) okn])
  finally show ?thesis
    by (simp add: c slice_def assms(1) del: to_bytes_big.simps)
qed


text \<open>The sum of the words does not depend on the byte order, modulo 65535.\<close>

lemma words_be_array_H:
  "even (length bs) \<Longrightarrow>
   \<exists>j. 0 \<le> j \<and> 256 * sum_list (array_H bs) = sum_list (words_be bs) + 65535 * j"
proof (induction bs rule: array_H.induct)
  case (1 a b r)
  then obtain j where j: "0 \<le> j" "256 * sum_list (array_H r) = sum_list (words_be r) + 65535 * j"
    by auto
  have "0 \<le> uint b" by simp
  then have "0 \<le> j + uint b" using j(1) by simp
  moreover have "256 * sum_list (array_H (a # b # r))
      = sum_list (words_be (a # b # r)) + 65535 * (j + uint b)"
    using j(2) by (simp add: algebra_simps)
  ultimately show ?case by blast
qed simp_all

lemma array_H_le_words_be:
  "even (length bs) \<Longrightarrow> sum_list (array_H bs) \<le> 256 * sum_list (words_be bs)"
proof (induction bs rule: array_H.induct)
  case (1 a b r)
  have a: "0 \<le> uint a" "0 \<le> uint b" by simp_all
  from 1 have ih: "sum_list (array_H r) \<le> 256 * sum_list (words_be r)" by simp
  have "sum_list (array_H (a # b # r)) = uint a + 256 * uint b + sum_list (array_H r)"
    by simp
  moreover have "sum_list (words_be (a # b # r))
      = 256 * uint a + uint b + sum_list (words_be r)"
    by simp
  ultimately show ?case using a ih by linarith
qed simp_all

lemma words_be_upper:
  "even (length bs) \<Longrightarrow> sum_list (words_be bs) \<le> 65535 * int (length bs div 2)"
proof (induction bs rule: array_H.induct)
  case (1 a b r)
  have "uint a \<le> 255" "uint b \<le> 255"
    using uint_byte_bounds [of a] uint_byte_bounds [of b] by simp_all
  with 1 show ?case by simp
qed simp_all

lemma verifies_network_order:
  assumes "length bs = 20" "sum_list (array_H bs) = 65535 * k" "1 \<le> k"
  shows "ones_complement_sum bs = 65535"
proof -
  have ev: "even (length bs)" using assms(1) by simp
  from words_be_array_H [OF ev] obtain j where
    j: "256 * sum_list (array_H bs) = sum_list (words_be bs) + 65535 * j"
    by blast
  define k' where "k' = 256 * k - j"
  have be: "sum_list (words_be bs) = 65535 * k'"
    using j assms(2) by (simp add: k'_def algebra_simps)
  have "0 < sum_list (array_H bs)" using assms(2,3) by simp
  with array_H_le_words_be [OF ev] have "0 < sum_list (words_be bs)" by linarith
  then have lo: "1 \<le> k'" unfolding be by (simp add: zero_less_mult_iff)
  from words_be_upper [OF ev] have "65535 * k' \<le> 65535 * 10" by (simp add: be assms(1))
  then have hi: "k' \<le> 10" by simp
  show ?thesis
    using fold16_multiple [OF lo hi] by (simp add: ones_complement_sum_def be)
qed

lemma wf_IpHeader_unpack:
  assumes "StructIpHeader h = Inr nt" shows "wf_IpHeader nt"
proof -
  from assms have l: "length h = 20" by (rule StructIpHeader_length)
  from assms show ?thesis
    by (auto simp: StructIpHeader_fields [OF l] wf_IpHeader_def l uint_ok_unpack unpack_s_def
        length_slice)
qed

lemma words_be_append:
  "even (length xs) \<Longrightarrow> words_be (xs @ ys) = words_be xs @ words_be ys"
  by (induction xs rule: array_H.induct) simp_all

lemma calculate_checksum_cong:
  assumes "even (length a)" "even (length b)" "sum_list (array_H a) = sum_list (array_H b)"
  shows "calculate_checksum a = calculate_checksum b"
  by (simp only: calculate_checksum_even [OF assms(1)] calculate_checksum_even [OF assms(2)]
      assms(3))

lemma make_ip_header_example:
  "make_ip_header ex_outer_ip 200 =
     Inr [0x45, 0x00, 0x00, 0xC8, 0x00, 0x01, 0x40, 0x00, 0x40, 0x11, 0xB8, 0xD0, 0xC0, 0xA8,
          0x00, 0x01, 0xC0, 0xA8, 0x00, 0x02]"
  by (simp add: make_ip_header_def then_do_def StructIpHeader_def ex_outer_ip_def
      unpack_uint_def unpack_s_def slice_def from_bytes_big_def pack_IpHeader_def uint_ok_def
      pack_s_def to_bytes_big_numeral calculate_ip_checksum_def calculate_checksum_def Let_def)


text \<open>
  C7: for every 20-byte IPv4 header \<open>h\<close> and every 16-bit value \<open>n\<close>, \<open>make_ip_header h n\<close>
  returns a 20-byte header whose fields are those of \<open>h\<close> but for the total length, which
  is \<open>n\<close>, and the checksum; and the one's-complement sum of the whole returned header,
  checksum included, is 0xFFFF: in network byte order (\<open>ones_complement_sum\<close>), and as the
  program's own routine sees it (\<open>calculate_checksum\<close> of a header that verifies is 0).
  The model is of a little-endian host.
\<close>

theorem make_ip_header_checksum:
  assumes "length h = 20" and "0 \<le> n" and "n < 65536" and "StructIpHeader h = Inr nt"
  shows "\<exists>h' c. make_ip_header h n = Inr h' \<and> length h' = 20
           \<and> StructIpHeader h' = Inr (nt\<lparr>ip_total_length := n, ip_hdr_checksum := c\<rparr>)
           \<and> ones_complement_sum h' = 0xFFFF
           \<and> calculate_checksum h' = 0"
proof -
  from assms(2,3) have okn: "uint_ok 2 n" by (simp add: uint_ok_def)
  define A where "A = take 2 h @ to_bytes_big 2 n @ slice 4 10 h"
  define B where "B = drop 12 h"
  define S0 where "S0 = sum_list (array_H A) + sum_list (array_H B)"
  define m where "m = 65535 - fold16 S0"
  define c where "c = calculate_checksum (A @ [0, 0] @ B)"
  define h' where "h' = A @ to_bytes_big 2 c @ B"
  have lA: "length A = 10" by (simp add: A_def length_slice length_to_bytes_big assms(1))
  have lB: "length B = 8" by (simp add: B_def assms(1))
  have run: "make_ip_header h n = Inr h'"
    using make_ip_header_result [OF assms(1) okn] by (simp add: h'_def c_def A_def B_def)
  have lh': "length h' = 20" by (simp add: h'_def lA lB length_to_bytes_big)
  have z: "sum_list (array_H (A @ [0, 0] @ B)) = S0"
    by (simp add: array_H_append lA S0_def)
  have "even (length (A @ [0, 0] @ B))" by (simp add: lA lB)
  from calculate_checksum_even [OF this] have c: "c = m div 256 + 256 * (m mod 256)"
    by (simp only: c_def z m_def)
  have bA: "0 \<le> sum_list (array_H A)" "sum_list (array_H A) \<le> 65535 * 5"
    using array_H_bounds [of A] by (simp_all add: lA)
  have bB: "0 \<le> sum_list (array_H B)" "sum_list (array_H B) \<le> 65535 * 4"
    using array_H_bounds [of B] by (simp_all add: lB)
  have S0: "0 \<le> S0" "S0 \<le> 589815" using bA bB by (simp_all add: S0_def)
  have mb: "0 \<le> m" "m < 65536" using fold16_bounds [of S0] S0 by (simp_all add: m_def)
  have w: "array_H (to_bytes_big 2 c) = [m]" unfolding c using mb by (rule array_H_swapped)
  have "array_H h' = array_H A @ array_H (to_bytes_big 2 c) @ array_H B"
    by (simp add: h'_def array_H_append lA length_to_bytes_big del: to_bytes_big.simps)
  then have "sum_list (array_H h') = S0 + (65535 - fold16 S0)"
    by (simp add: w S0_def m_def)
  with fold16_residue [OF S0] obtain k where k: "1 \<le> k" "k \<le> 10"
    "sum_list (array_H h') = 65535 * k"
    by auto
  have v1: "ones_complement_sum h' = 0xFFFF"
    using verifies_network_order [OF lh' k(3) k(1)] by simp
  have "even (length h')" by (simp add: lh')
  from calculate_checksum_even [OF this] have v2: "calculate_checksum h' = 0"
    by (simp add: k(3) fold16_multiple [OF k(1,2)])
  have okc: "uint_ok 2 c" using calculate_checksum_range by (simp add: c_def uint_ok_def)
  have packed: "pack_IpHeader (nt\<lparr>ip_total_length := n, ip_hdr_checksum := c\<rparr>) = Inr h'"
    using pack_IpHeader_updated [OF assms(4) okn okc]
    by (simp add: h'_def A_def B_def slice_def assms(1) del: to_bytes_big.simps)
  have "wf_IpHeader (nt\<lparr>ip_total_length := n, ip_hdr_checksum := c\<rparr>)"
    using wf_IpHeader_unpack [OF assms(4)] okn okc by (simp add: wf_IpHeader_def)
  from unpack_pack_IpHeader [OF this]
  have "StructIpHeader h' = Inr (nt\<lparr>ip_total_length := n, ip_hdr_checksum := c\<rparr>)"
    by (simp add: packed then_do_def)
  with run lh' v1 v2 show ?thesis by blast
qed

lemma ex_ip_unpacked: "StructIpHeader ex_outer_ip = Inr ex_ip_nt"
  by (simp add: StructIpHeader_def ex_outer_ip_def ex_ip_nt_def unpack_uint_def unpack_s_def
      slice_def from_bytes_big_def)

theorem make_ip_header_checksum_witness:
  "length ex_outer_ip = 20 \<and> (0::int) \<le> 200 \<and> (200::int) < 65536
   \<and> StructIpHeader ex_outer_ip = Inr ex_ip_nt
   \<and> make_ip_header ex_outer_ip 200 =
       Inr [0x45, 0x00, 0x00, 0xC8, 0x00, 0x01, 0x40, 0x00, 0x40, 0x11, 0xB8, 0xD0, 0xC0, 0xA8,
            0x00, 0x01, 0xC0, 0xA8, 0x00, 0x02]
   \<and> StructIpHeader
         [0x45, 0x00, 0x00, 0xC8, 0x00, 0x01, 0x40, 0x00, 0x40, 0x11, 0xB8, 0xD0, 0xC0, 0xA8,
          0x00, 0x01, 0xC0, 0xA8, 0x00, 0x02]
       = Inr (ex_ip_nt\<lparr>ip_total_length := 200, ip_hdr_checksum := 0xB8D0\<rparr>)
   \<and> ones_complement_sum
         [0x45, 0x00, 0x00, 0xC8, 0x00, 0x01, 0x40, 0x00, 0x40, 0x11, 0xB8, 0xD0, 0xC0, 0xA8,
          0x00, 0x01, 0xC0, 0xA8, 0x00, 0x02] = 0xFFFF
   \<and> calculate_checksum
         [0x45, 0x00, 0x00, 0xC8, 0x00, 0x01, 0x40, 0x00, 0x40, 0x11, 0xB8, 0xD0, 0xC0, 0xA8,
          0x00, 0x01, 0xC0, 0xA8, 0x00, 0x02] = 0"
proof -
  have l: "length ex_outer_ip = 20" by (simp add: ex_outer_ip_def)
  have a: "(0::int) \<le> 200" "(200::int) < 65536" by simp_all
  from make_ip_header_checksum [OF l a ex_ip_unpacked] obtain h' c where
    r: "make_ip_header ex_outer_ip 200 = Inr h'"
      "StructIpHeader h' = Inr (ex_ip_nt\<lparr>ip_total_length := 200, ip_hdr_checksum := c\<rparr>)"
      "ones_complement_sum h' = 0xFFFF" "calculate_checksum h' = 0"
    by blast
  from r(1) have h': "h' =
       [0x45, 0x00, 0x00, 0xC8, 0x00, 0x01, 0x40, 0x00, 0x40, 0x11, 0xB8, 0xD0, 0xC0, 0xA8,
        0x00, 0x01, 0xC0, 0xA8, 0x00, 0x02]"
    by (simp add: make_ip_header_example)
  have "StructIpHeader h' = Inr (ex_ip_nt\<lparr>ip_total_length := 200, ip_hdr_checksum := 0xB8D0\<rparr>)"
    by (simp add: h' StructIpHeader_def ex_ip_nt_def unpack_uint_def unpack_s_def slice_def
        from_bytes_big_def)
  with r(3,4) l ex_ip_unpacked make_ip_header_example show ?thesis
    by (simp add: h')
qed

text \<open>
  C8: for every 20-byte IPv4 header, exchanging source and destination address with
  \<open>make_ip_header_swap\<close> changes no other byte, the checksum field among them, and
  leaves unchanged what \<open>calculate_ip_checksum\<close> computes, what \<open>calculate_checksum\<close>
  computes over the whole header, and the one's-complement sum in network order: a header
  that verifies (sum 0xFFFF) verifies after the swap.
\<close>

theorem make_ip_header_swap_checksum:
  assumes "length h = 20"
  shows "\<exists>h'. make_ip_header_swap h = Inr h' \<and> length h' = 20
           \<and> h' = slice 0 12 h @ slice 16 20 h @ slice 12 16 h
           \<and> calculate_ip_checksum h' = calculate_ip_checksum h
           \<and> calculate_checksum h' = calculate_checksum h
           \<and> ones_complement_sum h' = ones_complement_sum h"
proof -
  define P where "P = slice 0 10 h"
  define C where "C = slice 10 12 h"
  define X where "X = slice 12 16 h"
  define Y where "Y = slice 16 20 h"
  define h' where "h' = slice 0 12 h @ slice 16 20 h @ slice 12 16 h"
  have l: "length P = 10" "length C = 2" "length X = 4" "length Y = 4"
    by (simp_all add: P_def C_def X_def Y_def length_slice assms)
  have "slice 0 10 h @ slice 10 12 h @ slice 12 16 h @ slice 16 20 h = slice 0 20 h"
    by (simp add: slice_append slice_append2)
  then have h: "h = P @ C @ X @ Y"
    by (simp add: P_def C_def X_def Y_def slice_all assms)
  have "slice 0 10 h @ slice 10 12 h = slice 0 12 h" by (simp add: slice_append)
  then have h'': "h' = P @ C @ Y @ X" by (simp add: h'_def P_def C_def X_def Y_def)
  have run: "make_ip_header_swap h = Inr h'"
    using make_ip_header_swap_result [OF assms] by (simp add: h'_def)
  have lh': "length h' = 20" by (simp add: h'' l)
  have a: "sum_list (array_H h') = sum_list (array_H h)"
    by (simp add: h h'' array_H_append l)
  have b: "sum_list (words_be h') = sum_list (words_be h)"
    by (simp add: h h'' words_be_append l)
  have c1: "calculate_checksum h' = calculate_checksum h"
    by (rule calculate_checksum_cong) (simp_all add: a lh' assms)
  have c2: "ones_complement_sum h' = ones_complement_sum h"
    by (simp add: ones_complement_sum_def b)
  have z: "slice 0 10 h @ [0] @ [0] @ slice 12 (length h) h = P @ [0, 0] @ X @ Y"
    by (simp add: h slice_def l)
  have z': "slice 0 10 h' @ [0] @ [0] @ slice 12 (length h') h' = P @ [0, 0] @ Y @ X"
    by (simp add: h'' slice_def l)
  have "calculate_checksum (P @ [0, 0] @ Y @ X) = calculate_checksum (P @ [0, 0] @ X @ Y)"
    by (rule calculate_checksum_cong) (simp_all add: array_H_append l)
  then have c3: "calculate_ip_checksum h' = calculate_ip_checksum h"
    by (simp only: calculate_ip_checksum_def z z')
  from run lh' c1 c2 c3 show ?thesis by (simp add: h'_def)
qed

lemma ex_ip_verifies: "ones_complement_sum ex_outer_ip = 0xFFFF"
  by (simp add: ones_complement_sum_def fold16_def ex_outer_ip_def Let_def)

theorem make_ip_header_swap_checksum_witness:
  "length ex_outer_ip = 20
   \<and> make_ip_header_swap ex_outer_ip =
       Inr [0x45, 0x00, 0x00, 0x80, 0x00, 0x01, 0x40, 0x00, 0x40, 0x11, 0xB9, 0x18, 0xC0, 0xA8,
            0x00, 0x02, 0xC0, 0xA8, 0x00, 0x01]
   \<and> calculate_ip_checksum
         [0x45, 0x00, 0x00, 0x80, 0x00, 0x01, 0x40, 0x00, 0x40, 0x11, 0xB9, 0x18, 0xC0, 0xA8,
          0x00, 0x02, 0xC0, 0xA8, 0x00, 0x01]
       = calculate_ip_checksum ex_outer_ip
   \<and> ones_complement_sum ex_outer_ip = 0xFFFF
   \<and> ones_complement_sum
         [0x45, 0x00, 0x00, 0x80, 0x00, 0x01, 0x40, 0x00, 0x40, 0x11, 0xB9, 0x18, 0xC0, 0xA8,
          0x00, 0x02, 0xC0, 0xA8, 0x00, 0x01] = 0xFFFF"
proof -
  have l: "length ex_outer_ip = 20" by (simp add: ex_outer_ip_def)
  from make_ip_header_swap_checksum [OF l] obtain h' where
    r: "make_ip_header_swap ex_outer_ip = Inr h'"
      "h' = slice 0 12 ex_outer_ip @ slice 16 20 ex_outer_ip @ slice 12 16 ex_outer_ip"
      "calculate_ip_checksum h' = calculate_ip_checksum ex_outer_ip"
      "ones_complement_sum h' = ones_complement_sum ex_outer_ip"
    by blast
  from r(2) have h': "h' =
       [0x45, 0x00, 0x00, 0x80, 0x00, 0x01, 0x40, 0x00, 0x40, 0x11, 0xB9, 0x18, 0xC0, 0xA8,
        0x00, 0x02, 0xC0, 0xA8, 0x00, 0x01]"
    by (simp add: ex_outer_ip_def slice_def)
  from r(1,3,4) l ex_ip_verifies show ?thesis by (simp add: h')
qed

end
